theory Spec2Isabelle
  imports Main "HOL-Library.Multiset"
begin

section \<open>Python strings\<close>

text \<open>
  A Python \<open>str\<close> is modelled as a \<open>string\<close>, one \<open>char\<close> per code point, so the
  model covers the strings whose code points are below 256.  Nothing below depends
  on which characters exist beyond the choice of the whitespace characters.
\<close>

text \<open>
  \<open>str.isspace\<close> on one character, for the code points below 256: TAB, LF, VT, FF, CR,
  FS, GS, RS, US, SPACE, NEL and NBSP.  This is the set that \<open>str.split()\<close> without
  argument splits on.
\<close>

definition is_space :: "char \<Rightarrow> bool" where
  "is_space c = (of_char c \<in> {9, 10, 11, 12, 13, 28, 29, 30, 31, 32, 133, 160 :: nat})"

text \<open>
  \<open>s.split()\<close>: the maximal runs of non-whitespace characters, in order.  The first
  argument of the auxiliary function is the word read so far.
\<close>

fun split_ws_aux :: "string \<Rightarrow> string \<Rightarrow> string list" where
  "split_ws_aux cur [] = (if cur = [] then [] else [cur])"
| "split_ws_aux cur (c # cs) =
     (if is_space c
      then (if cur = [] then split_ws_aux [] cs else cur # split_ws_aux [] cs)
      else split_ws_aux (cur @ [c]) cs)"

definition split_ws :: "string \<Rightarrow> string list" where
  "split_ws s = split_ws_aux [] s"

text \<open>\<open>"".join(ws)\<close>.\<close>

definition join_empty :: "string list \<Rightarrow> string" where
  "join_empty ws = concat ws"

text \<open>\<open>s.startswith(p)\<close>, \<open>s.endswith(p)\<close> and \<open>p in s\<close> (substring test).\<close>

fun startswith :: "string \<Rightarrow> string \<Rightarrow> bool" where
  "startswith s [] = True"
| "startswith [] (p # ps) = False"
| "startswith (c # cs) (p # ps) = (c = p \<and> startswith cs ps)"

definition endswith :: "string \<Rightarrow> string \<Rightarrow> bool" where
  "endswith s p = startswith (rev s) (rev p)"

fun str_in :: "string \<Rightarrow> string \<Rightarrow> bool" where
  "str_in p [] = (p = [])"
| "str_in p (c # cs) = (startswith (c # cs) p \<or> str_in p cs)"

text \<open>
  \<open>s.split(sep)\<close> for a separator of one character: the segments between the
  occurrences of the separator, empty segments included; the result is never empty.
\<close>

fun split_on :: "char \<Rightarrow> string \<Rightarrow> string list" where
  "split_on sep [] = ['''']"
| "split_on sep (c # cs) =
     (if c = sep then [] # split_on sep cs
      else (case split_on sep cs of
              [] \<Rightarrow> [c] # []
            | w # ws \<Rightarrow> (c # w) # ws))"

section \<open>compute_diff\<close>

text \<open>
  A \<open>defaultdict(int)\<close> with character keys, as an association list in insertion
  order.  Reading a missing key gives 0 (the read also inserts the key in Python,
  which no later read depends on).
\<close>

type_synonym counter = "(char \<times> int) list"

fun dd_get :: "counter \<Rightarrow> char \<Rightarrow> int" where
  "dd_get [] k = 0"
| "dd_get ((k', v) # m) k = (if k = k' then v else dd_get m k)"

fun dd_set :: "counter \<Rightarrow> char \<Rightarrow> int \<Rightarrow> counter" where
  "dd_set [] k v = [(k, v)]"
| "dd_set ((k', v') # m) k v = (if k = k' then (k', v) # m else (k', v') # dd_set m k v)"

definition dd_keys :: "counter \<Rightarrow> char set" where
  "dd_keys m = set (map fst m)"

text \<open>\<open>for c in s: count[c] += 1\<close>, from the counter \<open>m\<close>.\<close>

fun count_chars :: "counter \<Rightarrow> string \<Rightarrow> counter" where
  "count_chars m [] = m"
| "count_chars m (c # cs) = count_chars (dd_set m c (dd_get m c + 1)) cs"

text \<open>
  \<open>compute_diff\<close> (nested in \<open>get_youtube_meta_playlist\<close>):
  \<^verbatim>\<open>
  count_a = defaultdict(int)
  for c in "".join(a.split()): count_a[c] += 1
  count_b = defaultdict(int)
  for c in "".join(b.split()): count_b[c] += 1
  diff = sum(abs(count_a[k] - count_b[k]) for k in set(count_a) | set(count_b))
  \<close>
  The sum runs over a set, in no particular order.
\<close>

definition compute_diff :: "string \<Rightarrow> string \<Rightarrow> int" where
  "compute_diff a b =
     (let count_a = count_chars [] (join_empty (split_ws a));
          count_b = count_chars [] (join_empty (split_ws b))
      in sum (\<lambda>k. \<bar>dd_get count_a k - dd_get count_b k\<bar>) (dd_keys count_a \<union> dd_keys count_b))"

text \<open>
  The distance in the words of the specification: remove all whitespace, take the
  frequency of every character in each string, and add up the absolute differences
  over the characters that occur in either string.
\<close>

definition strip_ws :: "string \<Rightarrow> string" where
  "strip_ws s = filter (\<lambda>c. \<not> is_space c) s"

definition distance_spec :: "string \<Rightarrow> string \<Rightarrow> int" where
  "distance_spec a b =
     (\<Sum>c \<in> set (strip_ws a) \<union> set (strip_ws b).
        \<bar>int (count_list (strip_ws a) c) - int (count_list (strip_ws b) c)\<bar>)"

section \<open>Data model and collaborators\<close>

text \<open>
  Exceptions of the collaborators and of the interpreter, with their message.  Only
  subclasses of \<open>Exception\<close> are modelled.
\<close>

datatype exn =
    OSError string
  | ValueError string
  | LookupError string
  | AttributeError string
  | OtherException string

text \<open>
  The track metadata returned by \<open>metadata_provider.from_url\<close>, with the two entries
  the code reads: \<open>raw_track_meta["name"]\<close> and the \<open>"name"\<close> of every element of
  \<open>raw_track_meta["artists"]\<close>.  Album and artist metadata are passed on unread.
\<close>

record track_meta =
  tm_name :: string
  tm_artists :: "string list"

type_synonym raw_meta = string

text \<open>
  Modelled from the spec: the class \<open>SongObject\<close> is imported from \<open>spotdl.search\<close>
  and is not part of the source file.  The record holds the five constructor
  arguments; the attribute \<open>_youtube_link\<close> that \<open>get_youtube_meta_playlist\<close> writes
  and the property \<open>youtube_link\<close> that \<open>parse_request\<close> reads are the same field
  (the specification's "source-audio link (optional, mutable)"); \<open>song_name\<close> is the
  "canonical display name" and \<open>file_name\<close> the "derived file-name (deterministic
  function of name + artists)".
\<close>

record SongObject =
  raw_track_meta :: track_meta
  raw_album_meta :: raw_meta
  raw_artist_meta :: raw_meta
  youtube_link :: "string option"
  lyrics :: "string option"

definition SongObject_init ::
  "track_meta \<Rightarrow> raw_meta \<Rightarrow> raw_meta \<Rightarrow> string \<Rightarrow> string option \<Rightarrow> SongObject" where
  "SongObject_init track album artist link lyr =
     \<lparr>raw_track_meta = track, raw_album_meta = album, raw_artist_meta = artist,
      youtube_link = Some link, lyrics = lyr\<rparr>"

definition song_name :: "SongObject \<Rightarrow> string" where
  "song_name song = tm_name (raw_track_meta song)"

text \<open>One element of the list returned by \<open>ytm_provider.get_metadata_for_playlist\<close>.\<close>

record ytm_entry =
  title :: string
  videoId :: string

text \<open>
  The collaborators, as parameters of the model.  Each call either raises (\<open>Inl\<close>) or
  returns (\<open>Inr\<close>).  The bulk fetches return lists that may hold \<open>None\<close> for songs
  that are already downloaded.  The last argument of \<open>from_album\<close> is the keyword
  argument \<open>skip_youtube\<close>, \<open>None\<close> when the call does not pass it.
\<close>

record env =
  from_spotify_url :: "string \<Rightarrow> string option \<Rightarrow> bool \<Rightarrow> exn + SongObject option"
  from_album ::
    "string \<Rightarrow> string option \<Rightarrow> bool \<Rightarrow> bool \<Rightarrow> int \<Rightarrow> bool option \<Rightarrow> exn + SongObject option list"
  from_playlist ::
    "string \<Rightarrow> string option \<Rightarrow> bool \<Rightarrow> bool \<Rightarrow> int \<Rightarrow> exn + SongObject option list"
  from_artist :: "string \<Rightarrow> string option \<Rightarrow> bool \<Rightarrow> int \<Rightarrow> exn + SongObject option list"
  from_saved_tracks :: "string option \<Rightarrow> bool \<Rightarrow> int \<Rightarrow> exn + SongObject option list"
  from_search_term :: "string \<Rightarrow> string option \<Rightarrow> bool \<Rightarrow> exn + SongObject option list"
  metadata_from_url :: "string \<Rightarrow> exn + (track_meta \<times> raw_meta \<times> raw_meta)"
  create_file_name :: "string \<Rightarrow> string list \<Rightarrow> string"
  is_file :: "string \<Rightarrow> bool"
  get_song_lyrics :: "string \<Rightarrow> string list \<Rightarrow> exn + string option"
  get_metadata_for_playlist :: "string \<Rightarrow> exn + ytm_entry list"

text \<open>
  Modelled from the spec: the property \<open>file_name\<close> of \<open>SongObject\<close>, which is not part
  of the source file, is the "derived file-name (deterministic function of name +
  artists)": \<open>SongObject.create_file_name\<close> on the name and the artist names of the
  song, as \<open>get_youtube_meta_track\<close> calls it.
\<close>

definition file_name :: "env \<Rightarrow> SongObject \<Rightarrow> string" where
  "file_name E song =
     create_file_name E (tm_name (raw_track_meta song)) (tm_artists (raw_track_meta song))"

text \<open>
  What a run does besides returning: the lines it prints and the collaborator calls
  it makes, in order.  A printed line whose format arguments are not all strings is
  recorded with its arguments.
\<close>

datatype call =
    FromSpotifyUrl string "string option" bool
  | FromAlbum string "string option" bool bool int "bool option"
  | FromPlaylist string "string option" bool bool int
  | FromArtist string "string option" bool int
  | FromSavedTracks "string option" bool int
  | FromSearchTerm string "string option" bool
  | MetadataFromUrl string
  | IsFile string
  | GetSongLyrics string "string list"
  | GetMetadataForPlaylist string

datatype event =
    Print string
  | PrintExn exn
  | PrintMismatch string string int
  | PrintDebug string "int \<times> nat \<times> string" string
  | Call call

type_synonym 'a run = "(exn + 'a) \<times> event list"

section \<open>get_youtube_meta_track\<close>

definition get_youtube_meta_track ::
  "env \<Rightarrow> string \<Rightarrow> string \<Rightarrow> string option \<Rightarrow> SongObject option run" where
  "get_youtube_meta_track E youtube_url spotify_url output_format =
     (let ev1 = [Print (''Gathering Spotify Metadata for: '' @ spotify_url),
                 Call (MetadataFromUrl spotify_url)]
      in case metadata_from_url E spotify_url of
           Inl e \<Rightarrow> (Inl e, ev1)
         | Inr (track, artist, album) \<Rightarrow>
             (let song_name = tm_name track;
                  contributing_artist = tm_artists track;
                  converted_file_name = create_file_name E song_name (tm_artists track);
                  output_format' = (case output_format of None \<Rightarrow> ''mp3'' | Some f \<Rightarrow> f);
                  converted_file_path = converted_file_name @ ''.'' @ output_format';
                  ev2 = ev1 @ [Call (IsFile converted_file_path)]
              in if is_file E converted_file_path
                 then (Inr None,
                       ev2 @ [Print (''Skipping '' @ [CHR 0x22] @ converted_file_name @ [CHR 0x22]
                                     @ '' as it'' @ [CHR 0x27] @ ''s already downloaded'')])
                 else (let ev3 = ev2 @ [Call (GetSongLyrics song_name contributing_artist)]
                       in case get_song_lyrics E song_name contributing_artist of
                            Inl e \<Rightarrow> (Inl e, ev3)
                          | Inr lyr \<Rightarrow>
                              (Inr (Some (SongObject_init track album artist youtube_url lyr)),
                               ev3))))"

section \<open>get_youtube_meta_playlist\<close>

text \<open>
  \<open>min\<close> on the tuples \<open>(diff, idx, title)\<close>: tuples compare lexicographically, strings
  by code point; \<open>min\<close> keeps the first of the least elements and raises
  \<open>ValueError\<close> on an empty list.
\<close>

fun str_less :: "string \<Rightarrow> string \<Rightarrow> bool" where
  "str_less [] [] = False"
| "str_less [] (y # ys) = True"
| "str_less (x # xs) [] = False"
| "str_less (x # xs) (y # ys) =
     ((of_char x :: nat) < of_char y \<or> (x = y \<and> str_less xs ys))"

fun tuple_less :: "int \<times> nat \<times> string \<Rightarrow> int \<times> nat \<times> string \<Rightarrow> bool" where
  "tuple_less (d1, i1, t1) (d2, i2, t2) =
     (d1 < d2 \<or> (d1 = d2 \<and> (i1 < i2 \<or> (i1 = i2 \<and> str_less t1 t2))))"

fun min_from :: "int \<times> nat \<times> string \<Rightarrow> (int \<times> nat \<times> string) list \<Rightarrow> int \<times> nat \<times> string" where
  "min_from m [] = m"
| "min_from m (x # xs) = min_from (if tuple_less x m then x else m) xs"

fun py_min :: "(int \<times> nat \<times> string) list \<Rightarrow> exn + int \<times> nat \<times> string" where
  "py_min [] = Inl (ValueError ''min() arg is an empty sequence'')"
| "py_min (x # xs) = Inr (min_from x xs)"

text \<open>
  \<open>diff_scores = [(compute_diff(t, yt), idx, yt) for (idx, yt) in enumerate(ytm_titles)]\<close>
\<close>

definition diff_scores :: "string \<Rightarrow> string list \<Rightarrow> (int \<times> nat \<times> string) list" where
  "diff_scores t ytm_titles =
     map (\<lambda>(idx, yt). (compute_diff t yt, idx, yt)) (enumerate 0 ytm_titles)"

text \<open>
  The loop \<open>for song in song_list\<close>.  Reading \<open>song.song_name\<close> of a \<open>None\<close> element
  raises \<open>AttributeError\<close>; \<open>ytm_metadata[best_idx]\<close> raises \<open>IndexError\<close> (a
  \<open>LookupError\<close>) out of range.  The songs are updated in place and the list itself
  is returned, so the result holds the updated songs in the same positions.
\<close>

fun match_loop :: "ytm_entry list \<Rightarrow> string list \<Rightarrow> SongObject option list
    \<Rightarrow> SongObject option list run" where
  "match_loop ytm_metadata ytm_titles [] = (Inr [], [])"
| "match_loop ytm_metadata ytm_titles (None # rest) =
     (Inl (AttributeError ''song_name''), [])"
| "match_loop ytm_metadata ytm_titles (Some song # rest) =
     (let t = song_name song
      in case py_min (diff_scores t ytm_titles) of
           Inl e \<Rightarrow> (Inl e, [])
         | Inr (diff_score, best_idx, yt_title) \<Rightarrow>
             (let ev1 = (if diff_score \<noteq> 0 then [PrintMismatch t yt_title diff_score] else [])
              in if \<not> best_idx < length ytm_metadata
                 then (Inl (LookupError ''list index out of range''), ev1)
                 else
                   (let link = ''https://www.youtube.com/watch?v=''
                                 @ videoId (ytm_metadata ! best_idx);
                        song' = song\<lparr>youtube_link := Some link\<rparr>;
                        ev2 = ev1 @ [PrintDebug t (diff_score, best_idx, yt_title) link]
                    in case match_loop ytm_metadata ytm_titles rest of
                         (Inl e, ev) \<Rightarrow> (Inl e, ev2 @ ev)
                       | (Inr songs, ev) \<Rightarrow> (Inr (Some song' # songs), ev2 @ ev))))"

definition get_youtube_meta_playlist ::
  "env \<Rightarrow> string \<Rightarrow> string \<Rightarrow> string option \<Rightarrow> bool \<Rightarrow> int \<Rightarrow> SongObject option list run" where
  "get_youtube_meta_playlist E youtube_url spotify_url output_format generate_m3u threads =
     (let ev1 = [Print (''Gathering Spotify Metadata for: '' @ spotify_url),
                 Call (FromAlbum spotify_url output_format False generate_m3u threads (Some True))]
      in case from_album E spotify_url output_format False generate_m3u threads (Some True) of
           Inl e \<Rightarrow> (Inl e, ev1)
         | Inr song_list \<Rightarrow>
             (let ev2 = ev1 @ [Call (GetMetadataForPlaylist youtube_url)]
              in case get_metadata_for_playlist E youtube_url of
                   Inl e \<Rightarrow> (Inl e, ev2)
                 | Inr ytm_metadata \<Rightarrow>
                     (let ytm_titles = map title ytm_metadata
                      in if ytm_titles = []
                         then (Inr [],
                               ev2 @ [Print (''Can not find download links from Youtube Music for ''
                                             @ youtube_url)])
                         else (case match_loop ytm_metadata ytm_titles song_list of
                                 (r, ev) \<Rightarrow> (r, ev2 @ ev)))))"

text \<open>
  The candidate that the specification asks for: index \<open>i\<close> of \<open>titles\<close> has the least
  distance to \<open>t\<close>, and every earlier title has a strictly larger distance (of the
  titles at the least distance, \<open>i\<close> is the first).
\<close>

definition lowest_minimiser :: "string \<Rightarrow> string list \<Rightarrow> nat \<Rightarrow> bool" where
  "lowest_minimiser t titles i =
     (i < length titles
      \<and> (\<forall>yt \<in> set titles. compute_diff t (titles ! i) \<le> compute_diff t yt)
      \<and> (\<forall>yt \<in> set (take i titles). compute_diff t (titles ! i) < compute_diff t yt))"

section \<open>parse_request\<close>

text \<open>\<open>[x for x in xs if x is not None]\<close>; the second form returns the songs themselves.\<close>

definition keep_not_none :: "'a option list \<Rightarrow> 'a option list" where
  "keep_not_none xs = filter (\<lambda>x. x \<noteq> None) xs"

fun not_none :: "'a option list \<Rightarrow> 'a list" where
  "not_none [] = []"
| "not_none (None # xs) = not_none xs"
| "not_none (Some x # xs) = x # not_none xs"

text \<open>
  The conditions of the \<open>if\<close>/\<open>elif\<close> chain of \<open>parse_request\<close>, in the order of the
  source.  The last but one condition is \<open>request == "saved"\<close>.
\<close>

definition paired_track_pattern :: "string \<Rightarrow> bool" where
  "paired_track_pattern request =
     (str_in ''youtube.com/watch?v='' request
      \<and> str_in ''open.spotify.com'' request
      \<and> str_in ''track'' request
      \<and> str_in ''|'' request)"

definition paired_playlist_pattern :: "string \<Rightarrow> bool" where
  "paired_playlist_pattern request =
     (str_in ''music.youtube.com/playlist?list='' request
      \<and> str_in ''open.spotify.com'' request
      \<and> str_in ''|'' request)"

definition single_track_pattern :: "string \<Rightarrow> bool" where
  "single_track_pattern request =
     (str_in ''open.spotify.com'' request \<and> str_in ''track'' request)"

definition album_pattern :: "string \<Rightarrow> bool" where
  "album_pattern request =
     (str_in ''open.spotify.com'' request \<and> str_in ''album'' request)"

definition playlist_pattern :: "string \<Rightarrow> bool" where
  "playlist_pattern request =
     (str_in ''open.spotify.com'' request \<and> str_in ''playlist'' request)"

definition artist_pattern :: "string \<Rightarrow> bool" where
  "artist_pattern request =
     (str_in ''open.spotify.com'' request \<and> str_in ''artist'' request)"

text \<open>
  The test of both paired branches on the segments of the request:
  \<open>len(urls) <= 1 or "youtube" not in urls[0] or "spotify" not in urls[1]\<close>.
\<close>

definition malformed :: "string list \<Rightarrow> bool" where
  "malformed urls =
     (length urls \<le> 1 \<or> \<not> str_in ''youtube'' (urls ! 0) \<or> \<not> str_in ''spotify'' (urls ! 1))"

text \<open>
  The body of \<open>parse_request\<close>: the \<open>if\<close>/\<open>elif\<close> chain gives \<open>song_list\<close> (or
  raises), and the last statement removes the \<open>None\<close> entries.  In the single-track
  branch the call of \<open>from_spotify_url\<close> stands before the \<open>try\<close>, and the \<open>try\<close>
  body only reads \<open>song.youtube_link\<close>, which raises \<open>AttributeError\<close> when \<open>song\<close> is
  \<open>None\<close>; the handler catches \<open>OSError\<close>, \<open>ValueError\<close> and \<open>LookupError\<close> only.  In
  the search branch every \<open>Exception\<close> is caught and printed, and \<open>song_list\<close> keeps
  its initial value \<open>[]\<close>.
\<close>

definition parse_request ::
  "env \<Rightarrow> string \<Rightarrow> string option \<Rightarrow> bool \<Rightarrow> bool \<Rightarrow> int \<Rightarrow> SongObject list run" where
  "parse_request E request output_format use_youtube generate_m3u threads =
     (case
        (if paired_track_pattern request
         then
           (let urls = split_on (CHR ''|'') request
            in if malformed urls
               then (Inr [], [Print ''Incorrect format used, please use YouTubeURL|SpotifyURL''])
               else
                 (case get_youtube_meta_track E (urls ! 0) (urls ! 1) output_format of
                    (Inl e, ev) \<Rightarrow>
                      (Inl e, Print ''Fetching YouTube video with spotify metadata'' # ev)
                  | (Inr song, ev) \<Rightarrow>
                      (Inr (keep_not_none [song]),
                       Print ''Fetching YouTube video with spotify metadata'' # ev)))
         else if paired_playlist_pattern request
         then
           (let urls = split_on (CHR ''|'') request
            in if malformed urls
               then (Inr [],
                     [Print ''Incorrect format used, please use YouTubeMusicURL|SpotifyURL''])
               else
                 (case get_youtube_meta_playlist E (urls ! 0) (urls ! 1) output_format
                         generate_m3u threads of
                    (Inl e, ev) \<Rightarrow>
                      (Inl e, Print ''Fetching YouTube Music playlist with spotify metadata'' # ev)
                  | (Inr songs, ev) \<Rightarrow>
                      (Inr (keep_not_none songs),
                       Print ''Fetching YouTube Music playlist with spotify metadata'' # ev)))
         else if single_track_pattern request
         then
           (let ev = [Print ''Fetching Song...'',
                      Call (FromSpotifyUrl request output_format use_youtube)]
            in case from_spotify_url E request output_format use_youtube of
                 Inl e \<Rightarrow> (Inl e, ev)
               | Inr None \<Rightarrow> (Inl (AttributeError ''youtube_link''), ev)
               | Inr (Some song) \<Rightarrow>
                   (Inr (if youtube_link song \<noteq> None then [Some song] else []), ev))
         else if album_pattern request
         then
           (let ev = [Print ''Fetching Album...'',
                      Call (FromAlbum request output_format use_youtube generate_m3u threads None)]
            in case from_album E request output_format use_youtube generate_m3u threads None of
                 Inl e \<Rightarrow> (Inl e, ev)
               | Inr songs \<Rightarrow> (Inr songs, ev))
         else if playlist_pattern request
         then
           (let ev = [Print ''Fetching Playlist...'',
                      Call (FromPlaylist request output_format use_youtube generate_m3u threads)]
            in case from_playlist E request output_format use_youtube generate_m3u threads of
                 Inl e \<Rightarrow> (Inl e, ev)
               | Inr songs \<Rightarrow> (Inr songs, ev))
         else if artist_pattern request
         then
           (let ev = [Print ''Fetching artist...'',
                      Call (FromArtist request output_format use_youtube threads)]
            in case from_artist E request output_format use_youtube threads of
                 Inl e \<Rightarrow> (Inl e, ev)
               | Inr songs \<Rightarrow> (Inr songs, ev))
         else if request = ''saved''
         then
           (let ev = [Print ''Fetching Saved Songs...'',
                      Call (FromSavedTracks output_format use_youtube threads)]
            in case from_saved_tracks E output_format use_youtube threads of
                 Inl e \<Rightarrow> (Inl e, ev)
               | Inr songs \<Rightarrow> (Inr songs, ev))
         else
           (let ev = [Print (''Searching Spotify for song named '' @ [CHR 0x22] @ request
                             @ [CHR 0x22] @ ''...''),
                      Call (FromSearchTerm request output_format use_youtube)]
            in case from_search_term E request output_format use_youtube of
                 Inl e \<Rightarrow> (Inr [], ev @ [PrintExn e])
               | Inr songs \<Rightarrow> (Inr songs, ev)))
      of
        (Inl e, ev) \<Rightarrow> (Inl e, ev)
      | (Inr song_list, ev) \<Rightarrow> (Inr (not_none song_list), ev))"

text \<open>
  The branch of \<open>parse_request\<close> that handles a request: the guards of the
  \<open>if\<close>/\<open>elif\<close> chain, in the order of the source.
\<close>

datatype kind =
    PairedTrackURLs
  | PairedPlaylistURLs
  | SingleTrack
  | Album
  | Playlist
  | Artist
  | SavedLibrary
  | SearchTerm

definition classify :: "string \<Rightarrow> kind" where
  "classify request =
     (if paired_track_pattern request
      then PairedTrackURLs
      else if paired_playlist_pattern request
      then PairedPlaylistURLs
      else if single_track_pattern request then SingleTrack
      else if album_pattern request then Album
      else if playlist_pattern request then Playlist
      else if artist_pattern request then Artist
      else if request = ''saved'' then SavedLibrary
      else SearchTerm)"

section \<open>parse_query\<close>

text \<open>
  The first loop of \<open>parse_query\<close>, from the songs and events collected so far.  A
  request that raises ends the run.
\<close>

fun query_loop ::
  "env \<Rightarrow> SongObject list \<Rightarrow> event list \<Rightarrow> string list
    \<Rightarrow> string option \<Rightarrow> bool \<Rightarrow> bool \<Rightarrow> int \<Rightarrow> SongObject list run" where
  "query_loop E songs_list ev [] format use_youtube generate_m3u threads = (Inr songs_list, ev)"
| "query_loop E songs_list ev (request # query) format use_youtube generate_m3u threads =
     (if endswith request ''.spotdlTrackingFile''
      then query_loop E songs_list ev query format use_youtube generate_m3u threads
      else (case parse_request E request format use_youtube generate_m3u threads of
              (Inl e, ev') \<Rightarrow> (Inl e, ev @ ev')
            | (Inr songs, ev') \<Rightarrow>
                query_loop E (songs_list @ songs) (ev @ ev' @ [Print []])
                  query format use_youtube generate_m3u threads))"

text \<open>The second loop: \<open>seen_songs\<close>, \<open>songs\<close>, and the songs still to visit.\<close>

fun dedup_loop :: "env \<Rightarrow> string set \<Rightarrow> SongObject list \<Rightarrow> SongObject list \<Rightarrow> SongObject list" where
  "dedup_loop E seen_songs songs [] = songs"
| "dedup_loop E seen_songs songs (song # rest) =
     (if file_name E song \<notin> seen_songs
      then dedup_loop E (insert (file_name E song) seen_songs) (songs @ [song]) rest
      else dedup_loop E seen_songs songs rest)"

definition parse_query ::
  "env \<Rightarrow> string list \<Rightarrow> string option \<Rightarrow> bool \<Rightarrow> bool \<Rightarrow> int \<Rightarrow> SongObject list run" where
  "parse_query E query format use_youtube generate_m3u threads =
     (case query_loop E [] [] query format use_youtube generate_m3u threads of
        (Inl e, ev) \<Rightarrow> (Inl e, ev)
      | (Inr songs_list, ev) \<Rightarrow> (Inr (dedup_loop E {} [] songs_list), ev))"

section \<open>Sample collaborators\<close>

text \<open>
  Concrete environments, used to run the model on examples.  In \<open>env_ok\<close>
  every collaborator returns, the file name of a song is its name, and no file
  exists; in \<open>env_no_candidates\<close> the audio source has no entry for any playlist; in
  \<open>env_no_lyrics\<close> the lyrics fetch raises; in \<open>env_fail\<close> the album fetch and the
  search raise.
\<close>

definition sample_song :: "string \<Rightarrow> SongObject" where
  "sample_song name =
     SongObject_init \<lparr>tm_name = name, tm_artists = []\<rparr> ''album'' ''artist'' ''link'' None"

definition env_ok :: env where
  "env_ok =
     \<lparr>from_spotify_url = (\<lambda>url f u. Inr (Some (sample_song url))),
      from_album = (\<lambda>url f u g t s. Inr [Some (sample_song ''A b''), Some (sample_song ''xyz'')]),
      from_playlist = (\<lambda>url f u g t. Inr [Some (sample_song ''P'')]),
      from_artist = (\<lambda>url f u t. Inr []),
      from_saved_tracks = (\<lambda>f u t. Inr []),
      from_search_term = (\<lambda>term f u. Inr [Some (sample_song term)]),
      metadata_from_url =
        (\<lambda>url. Inr (\<lparr>tm_name = ''T'', tm_artists = [''X'']\<rparr>, ''artist'', ''album'')),
      create_file_name = (\<lambda>name artists. name),
      is_file = (\<lambda>path. False),
      get_song_lyrics = (\<lambda>name artists. Inr None),
      get_metadata_for_playlist =
        (\<lambda>url. Inr [\<lparr>title = ''xyz!'', videoId = ''v0''\<rparr>,
                   \<lparr>title = ''bA'', videoId = ''v1''\<rparr>,
                   \<lparr>title = ''Ab'', videoId = ''v2''\<rparr>])\<rparr>"

definition env_no_candidates :: env where
  "env_no_candidates = env_ok\<lparr>get_metadata_for_playlist := (\<lambda>url. Inr [])\<rparr>"



section \<open>Properties of the string primitives\<close>

lemma split_ws_aux_concat:
  "concat (split_ws_aux cur s) = cur @ filter (\<lambda>c. \<not> is_space c) s"
  by (induction s arbitrary: cur) auto

lemma join_split_ws: "join_empty (split_ws s) = strip_ws s"
  by (simp add: join_empty_def split_ws_def strip_ws_def split_ws_aux_concat)

lemma dd_get_dd_set: "dd_get (dd_set m k v) k' = (if k' = k then v else dd_get m k')"
  by (induction m) auto

lemma dd_keys_dd_set: "dd_keys (dd_set m k v) = insert k (dd_keys m)"
proof -
  have "fst ` set (dd_set m k v) = insert k (fst ` set m)"
    by (induction m) (force split: if_splits)+
  then show ?thesis by (simp add: dd_keys_def)
qed

lemma dd_get_count_chars:
  "dd_get (count_chars m s) k = dd_get m k + int (count_list s k)"
  by (induction s arbitrary: m) (auto simp: dd_get_dd_set)

lemma dd_keys_count_chars: "dd_keys (count_chars m s) = dd_keys m \<union> set s"
  by (induction s arbitrary: m) (auto simp: dd_keys_dd_set)

lemma dd_get_count_chars_Nil: "dd_get (count_chars [] s) k = int (count_list s k)"
  by (simp add: dd_get_count_chars)

lemma dd_keys_Nil: "dd_keys [] = {}"
  by (simp add: dd_keys_def)

lemma dd_keys_count_chars_Nil: "dd_keys (count_chars [] s) = set s"
  by (simp add: dd_keys_count_chars dd_keys_Nil)

lemma compute_diff_eq_spec: "compute_diff a b = distance_spec a b"
  by (simp add: compute_diff_def distance_spec_def Let_def join_split_ws
      dd_get_count_chars_Nil dd_keys_count_chars_Nil)

lemma distance_spec_zero_iff:
  "distance_spec a b = 0 \<longleftrightarrow> mset (strip_ws a) = mset (strip_ws b)"
proof -
  let ?A = "strip_ws a" and ?B = "strip_ws b"
  let ?U = "set ?A \<union> set ?B"
  have "distance_spec a b = 0 \<longleftrightarrow>
        (\<forall>c \<in> ?U. \<bar>int (count_list ?A c) - int (count_list ?B c)\<bar> = 0)"
    unfolding distance_spec_def by (rule sum_nonneg_eq_0_iff) auto
  also have "\<dots> \<longleftrightarrow> (\<forall>c \<in> ?U. count_list ?A c = count_list ?B c)"
    by auto
  also have "\<dots> \<longleftrightarrow> (\<forall>c. count_list ?A c = count_list ?B c)"
  proof
    assume h: "\<forall>c \<in> ?U. count_list ?A c = count_list ?B c"
    show "\<forall>c. count_list ?A c = count_list ?B c"
    proof
      fix c
      show "count_list ?A c = count_list ?B c"
      proof (cases "c \<in> ?U")
        case True
        with h show ?thesis by blast
      next
        case False
        then have "count_list ?A c = 0" and "count_list ?B c = 0"
          by (simp_all add: count_list_0_iff)
        then show ?thesis by simp
      qed
    qed
  qed blast
  also have "\<dots> \<longleftrightarrow> mset ?A = mset ?B"
    by (simp add: multiset_eq_iff count_mset)
  finally show ?thesis .
qed

section \<open>The distance: claims C3 and C8\<close>

text \<open>
  C3.  For all strings \<open>a\<close> and \<open>b\<close>, \<open>compute_diff a b\<close> equals the reference
  definition (whitespace removed, character frequencies, sum of the absolute
  differences over the characters of either string); the result is not negative; and
  it is zero exactly when the two whitespace-stripped strings have the same
  multiset of characters.
\<close>

theorem compute_diff_reference:
  "compute_diff a b = distance_spec a b
   \<and> 0 \<le> compute_diff a b
   \<and> (compute_diff a b = 0 \<longleftrightarrow> mset (strip_ws a) = mset (strip_ws b))"
proof -
  have "0 \<le> distance_spec a b"
    unfolding distance_spec_def by (rule sum_nonneg) simp
  then show ?thesis
    by (simp add: compute_diff_eq_spec distance_spec_zero_iff)
qed


text \<open>
  C8.  The distance is symmetric; the distance of a string to itself is 0; two
  strings that differ only in whitespace have distance 0; and the anagrams \<open>abc\<close>
  and \<open>bca\<close> have distance 0.
\<close>

theorem compute_diff_symmetric:
  "compute_diff a b = compute_diff b a
   \<and> compute_diff a a = 0
   \<and> (strip_ws a = strip_ws b \<longrightarrow> compute_diff a b = 0)
   \<and> compute_diff ''abc'' ''bca'' = 0"
proof -
  have sym: "compute_diff a b = compute_diff b a"
    by (simp add: compute_diff_eq_spec distance_spec_def Un_commute abs_minus_commute)
  have refl: "compute_diff a a = 0"
    by (simp add: compute_diff_eq_spec distance_spec_def)
  have ws: "strip_ws a = strip_ws b \<longrightarrow> compute_diff a b = 0"
    by (simp add: compute_diff_eq_spec distance_spec_def)
  have anagram: "compute_diff ''abc'' ''bca'' = 0"
    by (simp add: compute_diff_eq_spec distance_spec_zero_iff strip_ws_def is_space_def)
  from sym refl ws anagram show ?thesis by blast
qed

theorem compute_diff_symmetric_witness:
  "strip_ws ''a b'' = strip_ws (CHR 0x09 # ''ab '')
   \<and> compute_diff ''a b'' (CHR 0x09 # ''ab '') = 0
   \<and> compute_diff ''a b'' (CHR 0x09 # ''ab '') = compute_diff (CHR 0x09 # ''ab '') ''a b''
   \<and> compute_diff ''a b'' ''a b'' = 0"
  using compute_diff_symmetric [of "''a b''" "CHR 0x09 # ''ab ''"]
  by (simp add: strip_ws_def is_space_def)

section \<open>Properties of split and membership\<close>

lemma str_in_single: "str_in [c] s \<longleftrightarrow> c \<in> set s"
  by (induction s) auto

lemma length_split_on: "length (split_on sep s) = Suc (count_list s sep)"
  by (induction s) (auto split: list.splits)


lemma split_on_two: "sep \<in> set s \<Longrightarrow> 2 \<le> length (split_on sep s)"
  using count_list_0_iff [of s sep] by (simp add: length_split_on)



section \<open>The branches of parse_request\<close>

lemma classify_iff:
  "classify r = PairedTrackURLs \<longleftrightarrow> paired_track_pattern r"
  "classify r = PairedPlaylistURLs \<longleftrightarrow> \<not> paired_track_pattern r \<and> paired_playlist_pattern r"
  "classify r = SingleTrack \<longleftrightarrow>
     \<not> paired_track_pattern r \<and> \<not> paired_playlist_pattern r \<and> single_track_pattern r"
  "classify r = Album \<longleftrightarrow>
     \<not> paired_track_pattern r \<and> \<not> paired_playlist_pattern r \<and> \<not> single_track_pattern r
     \<and> album_pattern r"
  "classify r = Playlist \<longleftrightarrow>
     \<not> paired_track_pattern r \<and> \<not> paired_playlist_pattern r \<and> \<not> single_track_pattern r
     \<and> \<not> album_pattern r \<and> playlist_pattern r"
  "classify r = Artist \<longleftrightarrow>
     \<not> paired_track_pattern r \<and> \<not> paired_playlist_pattern r \<and> \<not> single_track_pattern r
     \<and> \<not> album_pattern r \<and> \<not> playlist_pattern r \<and> artist_pattern r"
  "classify r = SavedLibrary \<longleftrightarrow>
     \<not> paired_track_pattern r \<and> \<not> paired_playlist_pattern r \<and> \<not> single_track_pattern r
     \<and> \<not> album_pattern r \<and> \<not> playlist_pattern r \<and> \<not> artist_pattern r \<and> r = ''saved''"
  "classify r = SearchTerm \<longleftrightarrow>
     \<not> paired_track_pattern r \<and> \<not> paired_playlist_pattern r \<and> \<not> single_track_pattern r
     \<and> \<not> album_pattern r \<and> \<not> playlist_pattern r \<and> \<not> artist_pattern r \<and> r \<noteq> ''saved''"
  unfolding classify_def by simp_all

lemma parse_request_PairedTrack:
  assumes "classify r = PairedTrackURLs"
  shows "parse_request E r f u g t =
    (if malformed (split_on (CHR ''|'') r)
     then (Inr [], [Print ''Incorrect format used, please use YouTubeURL|SpotifyURL''])
     else (case get_youtube_meta_track E (split_on (CHR ''|'') r ! 0)
                  (split_on (CHR ''|'') r ! 1) f of
             (Inl e, ev) \<Rightarrow> (Inl e, Print ''Fetching YouTube video with spotify metadata'' # ev)
           | (Inr song, ev) \<Rightarrow>
               (Inr (not_none (keep_not_none [song])),
                Print ''Fetching YouTube video with spotify metadata'' # ev)))"
proof -
  let ?urls = "split_on (CHR ''|'') r"
  from assms have c: "paired_track_pattern r"
    by (simp add: classify_iff)
  show ?thesis
  proof (cases "malformed ?urls")
    case True
    then show ?thesis
      by (simp add: parse_request_def c Let_def del: One_nat_def)
  next
    case False
    obtain res ev where t: "get_youtube_meta_track E (?urls ! 0) (?urls ! 1) f = (res, ev)"
      by (cases "get_youtube_meta_track E (?urls ! 0) (?urls ! 1) f")
    show ?thesis
      by (cases res) (simp_all add: parse_request_def c False t Let_def del: One_nat_def)
  qed
qed

lemma parse_request_PairedPlaylist:
  assumes "classify r = PairedPlaylistURLs"
  shows "parse_request E r f u g t =
    (if malformed (split_on (CHR ''|'') r)
     then (Inr [], [Print ''Incorrect format used, please use YouTubeMusicURL|SpotifyURL''])
     else (case get_youtube_meta_playlist E (split_on (CHR ''|'') r ! 0)
                  (split_on (CHR ''|'') r ! 1) f g t of
             (Inl e, ev) \<Rightarrow>
               (Inl e, Print ''Fetching YouTube Music playlist with spotify metadata'' # ev)
           | (Inr songs, ev) \<Rightarrow>
               (Inr (not_none (keep_not_none songs)),
                Print ''Fetching YouTube Music playlist with spotify metadata'' # ev)))"
proof -
  let ?urls = "split_on (CHR ''|'') r"
  from assms have c: "\<not> paired_track_pattern r" "paired_playlist_pattern r"
    by (simp_all add: classify_iff)
  show ?thesis
  proof (cases "malformed ?urls")
    case True
    then show ?thesis
      by (simp add: parse_request_def c Let_def del: One_nat_def)
  next
    case False
    obtain res ev where t: "get_youtube_meta_playlist E (?urls ! 0) (?urls ! 1) f g t = (res, ev)"
      by (cases "get_youtube_meta_playlist E (?urls ! 0) (?urls ! 1) f g t")
    show ?thesis
      by (cases res) (simp_all add: parse_request_def c False t Let_def del: One_nat_def)
  qed
qed

lemma parse_request_SingleTrack:
  assumes "classify r = SingleTrack"
  shows "parse_request E r f u g t =
    (case from_spotify_url E r f u of
       Inl e \<Rightarrow> (Inl e, [Print ''Fetching Song...'', Call (FromSpotifyUrl r f u)])
     | Inr None \<Rightarrow>
         (Inl (AttributeError ''youtube_link''),
          [Print ''Fetching Song...'', Call (FromSpotifyUrl r f u)])
     | Inr (Some song) \<Rightarrow>
         (Inr (if youtube_link song \<noteq> None then [song] else []),
          [Print ''Fetching Song...'', Call (FromSpotifyUrl r f u)]))"
proof -
  from assms have c: "\<not> paired_track_pattern r" "\<not> paired_playlist_pattern r"
      "single_track_pattern r"
    by (simp_all add: classify_iff)
  show ?thesis
    by (simp add: parse_request_def c Let_def split: sum.split option.split)
qed

lemma parse_request_Album:
  assumes "classify r = Album"
  shows "parse_request E r f u g t =
    (case from_album E r f u g t None of
       Inl e \<Rightarrow> (Inl e, [Print ''Fetching Album...'', Call (FromAlbum r f u g t None)])
     | Inr songs \<Rightarrow>
         (Inr (not_none songs), [Print ''Fetching Album...'', Call (FromAlbum r f u g t None)]))"
proof -
  from assms have c: "\<not> paired_track_pattern r" "\<not> paired_playlist_pattern r"
      "\<not> single_track_pattern r" "album_pattern r"
    by (simp_all add: classify_iff)
  show ?thesis
    by (simp add: parse_request_def c Let_def split: sum.split)
qed

lemma parse_request_Playlist:
  assumes "classify r = Playlist"
  shows "parse_request E r f u g t =
    (case from_playlist E r f u g t of
       Inl e \<Rightarrow> (Inl e, [Print ''Fetching Playlist...'', Call (FromPlaylist r f u g t)])
     | Inr songs \<Rightarrow>
         (Inr (not_none songs), [Print ''Fetching Playlist...'', Call (FromPlaylist r f u g t)]))"
proof -
  from assms have c: "\<not> paired_track_pattern r" "\<not> paired_playlist_pattern r"
      "\<not> single_track_pattern r" "\<not> album_pattern r" "playlist_pattern r"
    by (simp_all add: classify_iff)
  show ?thesis
    by (simp add: parse_request_def c Let_def split: sum.split)
qed

lemma parse_request_Artist:
  assumes "classify r = Artist"
  shows "parse_request E r f u g t =
    (case from_artist E r f u t of
       Inl e \<Rightarrow> (Inl e, [Print ''Fetching artist...'', Call (FromArtist r f u t)])
     | Inr songs \<Rightarrow>
         (Inr (not_none songs), [Print ''Fetching artist...'', Call (FromArtist r f u t)]))"
proof -
  from assms have c: "\<not> paired_track_pattern r" "\<not> paired_playlist_pattern r"
      "\<not> single_track_pattern r" "\<not> album_pattern r" "\<not> playlist_pattern r"
      "artist_pattern r"
    by (simp_all add: classify_iff)
  show ?thesis
    by (simp add: parse_request_def c Let_def split: sum.split)
qed

lemma saved_patterns:
  "\<not> paired_track_pattern ''saved''" "\<not> paired_playlist_pattern ''saved''"
  "\<not> single_track_pattern ''saved''" "\<not> album_pattern ''saved''"
  "\<not> playlist_pattern ''saved''" "\<not> artist_pattern ''saved''"
  by (simp_all add: paired_track_pattern_def paired_playlist_pattern_def
      single_track_pattern_def album_pattern_def playlist_pattern_def artist_pattern_def)

lemma parse_request_SavedLibrary:
  assumes "classify r = SavedLibrary"
  shows "parse_request E r f u g t =
    (case from_saved_tracks E f u t of
       Inl e \<Rightarrow> (Inl e, [Print ''Fetching Saved Songs...'', Call (FromSavedTracks f u t)])
     | Inr songs \<Rightarrow>
         (Inr (not_none songs), [Print ''Fetching Saved Songs...'', Call (FromSavedTracks f u t)]))"
proof -
  from assms have c: "r = ''saved''"
    by (simp add: classify_iff)
  show ?thesis
    by (simp add: parse_request_def c saved_patterns Let_def split: sum.split)
qed

lemma parse_request_SearchTerm:
  assumes "classify r = SearchTerm"
  shows "parse_request E r f u g t =
    (case from_search_term E r f u of
       Inl e \<Rightarrow>
         (Inr [],
          [Print (''Searching Spotify for song named '' @ [CHR 0x22] @ r @ [CHR 0x22] @ ''...''),
           Call (FromSearchTerm r f u), PrintExn e])
     | Inr songs \<Rightarrow>
         (Inr (not_none songs),
          [Print (''Searching Spotify for song named '' @ [CHR 0x22] @ r @ [CHR 0x22] @ ''...''),
           Call (FromSearchTerm r f u)]))"
proof -
  from assms have c: "\<not> paired_track_pattern r" "\<not> paired_playlist_pattern r"
      "\<not> single_track_pattern r" "\<not> album_pattern r" "\<not> playlist_pattern r"
      "\<not> artist_pattern r" "r \<noteq> ''saved''"
    by (simp_all add: classify_iff)
  show ?thesis
    by (simp add: parse_request_def c Let_def split: sum.split)
qed


section \<open>Events of the paired fetches\<close>

lemma track_events:
  "get_youtube_meta_track E y s f = (r, ev) \<Longrightarrow> e \<in> set ev \<Longrightarrow>
   (\<exists>x. e = Call (MetadataFromUrl x)) \<or> (\<exists>x. e = Call (IsFile x))
   \<or> (\<exists>a b. e = Call (GetSongLyrics a b))
   \<or> (\<exists>x. e = Print (CHR ''G'' # x)) \<or> (\<exists>x. e = Print (CHR ''S'' # x))"
  by (auto simp: get_youtube_meta_track_def Let_def split: sum.splits prod.splits if_splits)

lemma match_loop_events:
  "match_loop md ts songs = (r, ev) \<Longrightarrow> e \<in> set ev \<Longrightarrow>
   (\<exists>a b c. e = PrintMismatch a b c) \<or> (\<exists>a b c. e = PrintDebug a b c)"
proof (induction songs arbitrary: r ev)
  case Nil
  then show ?case by simp
next
  case (Cons s rest)
  show ?case
  proof (cases s)
    case None
    with Cons.prems show ?thesis by simp
  next
    case (Some song)
    with Cons show ?thesis
      by (auto simp: Let_def split: sum.splits prod.splits if_splits)
  qed
qed

lemma playlist_events:
  "get_youtube_meta_playlist E y s f g t = (r, ev) \<Longrightarrow> e \<in> set ev \<Longrightarrow>
   (\<exists>a b c d x y. e = Call (FromAlbum a b c d x y))
   \<or> (\<exists>x. e = Call (GetMetadataForPlaylist x))
   \<or> (\<exists>x. e = Print (CHR ''G'' # x)) \<or> (\<exists>x. e = Print (CHR ''C'' # x))
   \<or> (\<exists>a b c. e = PrintMismatch a b c) \<or> (\<exists>a b c. e = PrintDebug a b c)"
  by (auto simp: get_youtube_meta_playlist_def Let_def
         split: sum.splits prod.splits if_splits dest: match_loop_events)


section \<open>Classification and malformed requests: claims C4 and C10\<close>

lemma paired_pattern_pipe:
  "paired_track_pattern r \<or> paired_playlist_pattern r \<Longrightarrow> CHR ''|'' \<in> set r"
  using str_in_single [of "CHR ''|''" r]
  by (auto simp: paired_track_pattern_def paired_playlist_pattern_def)

text \<open>
  C10.  In both paired branches of \<open>parse_request\<close> the request holds a pipe, so
  \<open>request.split("|")\<close> has at least two segments and the test \<open>len(urls) <= 1\<close> never
  holds: the request is malformed exactly when \<open>"youtube"\<close> is missing from segment 0
  or \<open>"spotify"\<close> from segment 1, and one of the two "Incorrect format" lines is
  printed exactly then.
\<close>

theorem malformed_only_markers:
  assumes "classify request = PairedTrackURLs \<or> classify request = PairedPlaylistURLs"
  shows "2 \<le> length (split_on (CHR ''|'') request)
    \<and> (malformed (split_on (CHR ''|'') request) \<longleftrightarrow>
         \<not> str_in ''youtube'' (split_on (CHR ''|'') request ! 0)
         \<or> \<not> str_in ''spotify'' (split_on (CHR ''|'') request ! 1))
    \<and> (Print ''Incorrect format used, please use YouTubeURL|SpotifyURL''
           \<in> set (snd (parse_request E request f u g t))
         \<or> Print ''Incorrect format used, please use YouTubeMusicURL|SpotifyURL''
           \<in> set (snd (parse_request E request f u g t))
        \<longleftrightarrow>
         \<not> str_in ''youtube'' (split_on (CHR ''|'') request ! 0)
         \<or> \<not> str_in ''spotify'' (split_on (CHR ''|'') request ! 1))"
proof -
  let ?urls = "split_on (CHR ''|'') request"
  let ?A = "Print ''Incorrect format used, please use YouTubeURL|SpotifyURL''"
  let ?B = "Print ''Incorrect format used, please use YouTubeMusicURL|SpotifyURL''"
  let ?ev = "snd (parse_request E request f u g t)"
  from assms have "paired_track_pattern request \<or> paired_playlist_pattern request"
    by (auto simp: classify_iff)
  then have len: "2 \<le> length ?urls"
    by (intro split_on_two paired_pattern_pipe)
  then have mal: "malformed ?urls \<longleftrightarrow>
      \<not> str_in ''youtube'' (?urls ! 0) \<or> \<not> str_in ''spotify'' (?urls ! 1)"
    by (simp add: malformed_def)
  have rep: "(?A \<in> set ?ev \<or> ?B \<in> set ?ev) \<longleftrightarrow> malformed ?urls"
  proof (cases "malformed ?urls")
    case True
    with assms show ?thesis
      by (auto simp: parse_request_PairedTrack parse_request_PairedPlaylist)
  next
    case False
    from assms show ?thesis
    proof
      assume k: "classify request = PairedTrackURLs"
      obtain res ev where t: "get_youtube_meta_track E (?urls ! 0) (?urls ! 1) f = (res, ev)"
        by (cases "get_youtube_meta_track E (?urls ! 0) (?urls ! 1) f")
      have "?A \<notin> set ev" and "?B \<notin> set ev"
        using track_events [OF t] by auto
      with False t show ?thesis
        by (cases res) (simp_all add: parse_request_PairedTrack [OF k])
    next
      assume k: "classify request = PairedPlaylistURLs"
      obtain res ev where t:
        "get_youtube_meta_playlist E (?urls ! 0) (?urls ! 1) f g t = (res, ev)"
        by (cases "get_youtube_meta_playlist E (?urls ! 0) (?urls ! 1) f g t")
      have "?A \<notin> set ev" and "?B \<notin> set ev"
        using playlist_events [OF t] by auto
      with False t show ?thesis
        by (cases res) (simp_all add: parse_request_PairedPlaylist [OF k])
    qed
  qed
  from len mal rep show ?thesis by blast
qed


theorem malformed_only_markers_witness:
  "(classify ''open.spotify.com/track/2|youtube.com/watch?v=1'' = PairedTrackURLs
    \<or> classify ''open.spotify.com/track/2|youtube.com/watch?v=1'' = PairedPlaylistURLs)
   \<and> 2 \<le> length (split_on (CHR ''|'') ''open.spotify.com/track/2|youtube.com/watch?v=1'')
   \<and> \<not> str_in ''youtube'' (split_on (CHR ''|'') ''open.spotify.com/track/2|youtube.com/watch?v=1'' ! 0)
   \<and> malformed (split_on (CHR ''|'') ''open.spotify.com/track/2|youtube.com/watch?v=1'')
   \<and> (Print ''Incorrect format used, please use YouTubeURL|SpotifyURL''
           \<in> set (snd (parse_request env_ok ''open.spotify.com/track/2|youtube.com/watch?v=1''
                          None False False 1))
         \<or> Print ''Incorrect format used, please use YouTubeMusicURL|SpotifyURL''
           \<in> set (snd (parse_request env_ok ''open.spotify.com/track/2|youtube.com/watch?v=1''
                          None False False 1)))"
proof -
  let ?r = "''open.spotify.com/track/2|youtube.com/watch?v=1''"
  have h: "classify ?r = PairedTrackURLs \<or> classify ?r = PairedPlaylistURLs"
    by (simp add: classify_def paired_track_pattern_def)
  have m: "\<not> str_in ''youtube'' (split_on (CHR ''|'') ?r ! 0)"
    by simp
  from malformed_only_markers [OF h, of env_ok None False False 1] m h
  show ?thesis by blast
qed

lemma priority_of_patterns:
  "(paired_track_pattern r \<and> single_track_pattern r \<longrightarrow>
      classify r = PairedTrackURLs
      \<and> (\<exists>ev. snd (parse_request E r f u g t) =
                 Print ''Incorrect format used, please use YouTubeURL|SpotifyURL'' # ev
            \<or> snd (parse_request E r f u g t) =
                 Print ''Fetching YouTube video with spotify metadata'' # ev)
      \<and> Print ''Fetching Song...'' \<notin> set (snd (parse_request E r f u g t))
      \<and> Call (FromSpotifyUrl r f u) \<notin> set (snd (parse_request E r f u g t)))
   \<and> (\<not> paired_track_pattern r \<and> \<not> paired_playlist_pattern r \<and> \<not> single_track_pattern r
       \<and> \<not> album_pattern r \<and> \<not> playlist_pattern r \<and> \<not> artist_pattern r \<and> r \<noteq> ''saved'' \<longrightarrow>
      classify r = SearchTerm
      \<and> (\<exists>ev. snd (parse_request E r f u g t) =
            Print (''Searching Spotify for song named '' @ [CHR 0x22] @ r @ [CHR 0x22] @ ''...'')
            # Call (FromSearchTerm r f u) # ev))
   \<and> (classify r = PairedTrackURLs \<longleftrightarrow> paired_track_pattern r)
   \<and> (classify r = PairedPlaylistURLs \<longleftrightarrow> \<not> paired_track_pattern r \<and> paired_playlist_pattern r)
   \<and> (classify r = SingleTrack \<longleftrightarrow>
        \<not> paired_track_pattern r \<and> \<not> paired_playlist_pattern r \<and> single_track_pattern r)
   \<and> (classify r = Album \<longleftrightarrow>
        \<not> paired_track_pattern r \<and> \<not> paired_playlist_pattern r \<and> \<not> single_track_pattern r
        \<and> album_pattern r)
   \<and> (classify r = Playlist \<longleftrightarrow>
        \<not> paired_track_pattern r \<and> \<not> paired_playlist_pattern r \<and> \<not> single_track_pattern r
        \<and> \<not> album_pattern r \<and> playlist_pattern r)
   \<and> (classify r = Artist \<longleftrightarrow>
        \<not> paired_track_pattern r \<and> \<not> paired_playlist_pattern r \<and> \<not> single_track_pattern r
        \<and> \<not> album_pattern r \<and> \<not> playlist_pattern r \<and> artist_pattern r)
   \<and> (classify r = SavedLibrary \<longleftrightarrow>
        \<not> paired_track_pattern r \<and> \<not> paired_playlist_pattern r \<and> \<not> single_track_pattern r
        \<and> \<not> album_pattern r \<and> \<not> playlist_pattern r \<and> \<not> artist_pattern r \<and> r = ''saved'')"
proof -
  let ?urls = "split_on (CHR ''|'') r"
  let ?ev = "snd (parse_request E r f u g t)"
  have paired: "classify r = PairedTrackURLs
      \<and> (\<exists>ev. ?ev = Print ''Incorrect format used, please use YouTubeURL|SpotifyURL'' # ev
            \<or> ?ev = Print ''Fetching YouTube video with spotify metadata'' # ev)
      \<and> Print ''Fetching Song...'' \<notin> set ?ev
      \<and> Call (FromSpotifyUrl r f u) \<notin> set ?ev"
    if p: "paired_track_pattern r"
  proof -
    from p have k: "classify r = PairedTrackURLs"
      by (simp add: classify_iff)
    obtain res ev where t: "get_youtube_meta_track E (?urls ! 0) (?urls ! 1) f = (res, ev)"
      by (cases "get_youtube_meta_track E (?urls ! 0) (?urls ! 1) f")
    have n: "Print ''Fetching Song...'' \<notin> set ev" "Call (FromSpotifyUrl r f u) \<notin> set ev"
      using track_events [OF t] by auto
    have "?ev = (if malformed ?urls
        then [Print ''Incorrect format used, please use YouTubeURL|SpotifyURL'']
        else Print ''Fetching YouTube video with spotify metadata'' # ev)"
      using t by (cases res) (simp_all add: parse_request_PairedTrack [OF k])
    with k n show ?thesis by simp
  qed
  have search: "classify r = SearchTerm
      \<and> (\<exists>ev. ?ev =
            Print (''Searching Spotify for song named '' @ [CHR 0x22] @ r @ [CHR 0x22] @ ''...'')
            # Call (FromSearchTerm r f u) # ev)"
    if "classify r = SearchTerm"
    using that by (simp add: parse_request_SearchTerm split: sum.split)
  from paired search show ?thesis
    by (simp add: classify_iff)
qed


text \<open>
  C4.  The branch taken by \<open>parse_request\<close> is a function of the request, and the
  first condition of the chain that holds decides it: for each of the eight kinds,
  a request of that kind (its condition holds and no earlier one does) is run by
  the branch of that kind and no other, which prints its own first line and calls
  its own collaborator.  A request that matches both the paired-track pattern and
  the single-track pattern is handled by the paired-track branch: the first line
  printed is one of the two lines of that branch, and neither the line nor the
  catalog call of the single-track branch occurs.  A request that matches no
  condition is handled as a search term.
\<close>

theorem classify_priority:
  "(classify r = PairedTrackURLs \<longrightarrow>
      parse_request E r f u g t =
        (if malformed (split_on (CHR ''|'') r)
         then (Inr [], [Print ''Incorrect format used, please use YouTubeURL|SpotifyURL''])
         else (case get_youtube_meta_track E (split_on (CHR ''|'') r ! 0)
                      (split_on (CHR ''|'') r ! 1) f of
                 (Inl e, ev) \<Rightarrow>
                   (Inl e, Print ''Fetching YouTube video with spotify metadata'' # ev)
               | (Inr song, ev) \<Rightarrow>
                   (Inr (not_none (keep_not_none [song])),
                    Print ''Fetching YouTube video with spotify metadata'' # ev))))
   \<and> (classify r = PairedPlaylistURLs \<longrightarrow>
      parse_request E r f u g t =
        (if malformed (split_on (CHR ''|'') r)
         then (Inr [], [Print ''Incorrect format used, please use YouTubeMusicURL|SpotifyURL''])
         else (case get_youtube_meta_playlist E (split_on (CHR ''|'') r ! 0)
                      (split_on (CHR ''|'') r ! 1) f g t of
                 (Inl e, ev) \<Rightarrow>
                   (Inl e, Print ''Fetching YouTube Music playlist with spotify metadata'' # ev)
               | (Inr songs, ev) \<Rightarrow>
                   (Inr (not_none (keep_not_none songs)),
                    Print ''Fetching YouTube Music playlist with spotify metadata'' # ev))))
   \<and> (classify r = SingleTrack \<longrightarrow>
      parse_request E r f u g t =
        (case from_spotify_url E r f u of
           Inl e \<Rightarrow> (Inl e, [Print ''Fetching Song...'', Call (FromSpotifyUrl r f u)])
         | Inr None \<Rightarrow>
             (Inl (AttributeError ''youtube_link''),
              [Print ''Fetching Song...'', Call (FromSpotifyUrl r f u)])
         | Inr (Some song) \<Rightarrow>
             (Inr (if youtube_link song \<noteq> None then [song] else []),
              [Print ''Fetching Song...'', Call (FromSpotifyUrl r f u)])))
   \<and> (classify r = Album \<longrightarrow>
      parse_request E r f u g t =
        (case from_album E r f u g t None of
           Inl e \<Rightarrow> (Inl e, [Print ''Fetching Album...'', Call (FromAlbum r f u g t None)])
         | Inr songs \<Rightarrow>
             (Inr (not_none songs),
              [Print ''Fetching Album...'', Call (FromAlbum r f u g t None)])))
   \<and> (classify r = Playlist \<longrightarrow>
      parse_request E r f u g t =
        (case from_playlist E r f u g t of
           Inl e \<Rightarrow> (Inl e, [Print ''Fetching Playlist...'', Call (FromPlaylist r f u g t)])
         | Inr songs \<Rightarrow>
             (Inr (not_none songs),
              [Print ''Fetching Playlist...'', Call (FromPlaylist r f u g t)])))
   \<and> (classify r = Artist \<longrightarrow>
      parse_request E r f u g t =
        (case from_artist E r f u t of
           Inl e \<Rightarrow> (Inl e, [Print ''Fetching artist...'', Call (FromArtist r f u t)])
         | Inr songs \<Rightarrow>
             (Inr (not_none songs),
              [Print ''Fetching artist...'', Call (FromArtist r f u t)])))
   \<and> (classify r = SavedLibrary \<longrightarrow>
      parse_request E r f u g t =
        (case from_saved_tracks E f u t of
           Inl e \<Rightarrow> (Inl e, [Print ''Fetching Saved Songs...'', Call (FromSavedTracks f u t)])
         | Inr songs \<Rightarrow>
             (Inr (not_none songs),
              [Print ''Fetching Saved Songs...'', Call (FromSavedTracks f u t)])))
   \<and> (classify r = SearchTerm \<longrightarrow>
      parse_request E r f u g t =
        (case from_search_term E r f u of
           Inl e \<Rightarrow>
             (Inr [],
              [Print (''Searching Spotify for song named '' @ [CHR 0x22] @ r @ [CHR 0x22]
                      @ ''...''),
               Call (FromSearchTerm r f u), PrintExn e])
         | Inr songs \<Rightarrow>
             (Inr (not_none songs),
              [Print (''Searching Spotify for song named '' @ [CHR 0x22] @ r @ [CHR 0x22]
                      @ ''...''),
               Call (FromSearchTerm r f u)])))
   \<and> (paired_track_pattern r \<and> single_track_pattern r \<longrightarrow>
      classify r = PairedTrackURLs
      \<and> (\<exists>ev. snd (parse_request E r f u g t) =
                 Print ''Incorrect format used, please use YouTubeURL|SpotifyURL'' # ev
            \<or> snd (parse_request E r f u g t) =
                 Print ''Fetching YouTube video with spotify metadata'' # ev)
      \<and> Print ''Fetching Song...'' \<notin> set (snd (parse_request E r f u g t))
      \<and> Call (FromSpotifyUrl r f u) \<notin> set (snd (parse_request E r f u g t)))
   \<and> (\<not> paired_track_pattern r \<and> \<not> paired_playlist_pattern r \<and> \<not> single_track_pattern r
       \<and> \<not> album_pattern r \<and> \<not> playlist_pattern r \<and> \<not> artist_pattern r \<and> r \<noteq> ''saved'' \<longrightarrow>
      classify r = SearchTerm
      \<and> (\<exists>ev. snd (parse_request E r f u g t) =
            Print (''Searching Spotify for song named '' @ [CHR 0x22] @ r @ [CHR 0x22] @ ''...'')
            # Call (FromSearchTerm r f u) # ev))
   \<and> (classify r = PairedTrackURLs \<longleftrightarrow> paired_track_pattern r)
   \<and> (classify r = PairedPlaylistURLs \<longleftrightarrow> \<not> paired_track_pattern r \<and> paired_playlist_pattern r)
   \<and> (classify r = SingleTrack \<longleftrightarrow>
        \<not> paired_track_pattern r \<and> \<not> paired_playlist_pattern r \<and> single_track_pattern r)
   \<and> (classify r = Album \<longleftrightarrow>
        \<not> paired_track_pattern r \<and> \<not> paired_playlist_pattern r \<and> \<not> single_track_pattern r
        \<and> album_pattern r)
   \<and> (classify r = Playlist \<longleftrightarrow>
        \<not> paired_track_pattern r \<and> \<not> paired_playlist_pattern r \<and> \<not> single_track_pattern r
        \<and> \<not> album_pattern r \<and> playlist_pattern r)
   \<and> (classify r = Artist \<longleftrightarrow>
        \<not> paired_track_pattern r \<and> \<not> paired_playlist_pattern r \<and> \<not> single_track_pattern r
        \<and> \<not> album_pattern r \<and> \<not> playlist_pattern r \<and> artist_pattern r)
   \<and> (classify r = SavedLibrary \<longleftrightarrow>
        \<not> paired_track_pattern r \<and> \<not> paired_playlist_pattern r \<and> \<not> single_track_pattern r
        \<and> \<not> album_pattern r \<and> \<not> playlist_pattern r \<and> \<not> artist_pattern r \<and> r = ''saved'')"
proof -
  have t1: "classify r = PairedTrackURLs \<longrightarrow> parse_request E r f u g t =
        (if malformed (split_on (CHR ''|'') r)
         then (Inr [], [Print ''Incorrect format used, please use YouTubeURL|SpotifyURL''])
         else (case get_youtube_meta_track E (split_on (CHR ''|'') r ! 0)
                      (split_on (CHR ''|'') r ! 1) f of
                 (Inl e, ev) \<Rightarrow>
                   (Inl e, Print ''Fetching YouTube video with spotify metadata'' # ev)
               | (Inr song, ev) \<Rightarrow>
                   (Inr (not_none (keep_not_none [song])),
                    Print ''Fetching YouTube video with spotify metadata'' # ev)))"
    by (intro impI) (rule parse_request_PairedTrack)
  have t2: "classify r = PairedPlaylistURLs \<longrightarrow> parse_request E r f u g t =
        (if malformed (split_on (CHR ''|'') r)
         then (Inr [], [Print ''Incorrect format used, please use YouTubeMusicURL|SpotifyURL''])
         else (case get_youtube_meta_playlist E (split_on (CHR ''|'') r ! 0)
                      (split_on (CHR ''|'') r ! 1) f g t of
                 (Inl e, ev) \<Rightarrow>
                   (Inl e, Print ''Fetching YouTube Music playlist with spotify metadata'' # ev)
               | (Inr songs, ev) \<Rightarrow>
                   (Inr (not_none (keep_not_none songs)),
                    Print ''Fetching YouTube Music playlist with spotify metadata'' # ev)))"
    by (intro impI) (rule parse_request_PairedPlaylist)
  have t3: "classify r = SingleTrack \<longrightarrow> parse_request E r f u g t =
        (case from_spotify_url E r f u of
           Inl e \<Rightarrow> (Inl e, [Print ''Fetching Song...'', Call (FromSpotifyUrl r f u)])
         | Inr None \<Rightarrow>
             (Inl (AttributeError ''youtube_link''),
              [Print ''Fetching Song...'', Call (FromSpotifyUrl r f u)])
         | Inr (Some song) \<Rightarrow>
             (Inr (if youtube_link song \<noteq> None then [song] else []),
              [Print ''Fetching Song...'', Call (FromSpotifyUrl r f u)]))"
    by (intro impI) (rule parse_request_SingleTrack)
  have t4: "classify r = Album \<longrightarrow> parse_request E r f u g t =
        (case from_album E r f u g t None of
           Inl e \<Rightarrow> (Inl e, [Print ''Fetching Album...'', Call (FromAlbum r f u g t None)])
         | Inr songs \<Rightarrow>
             (Inr (not_none songs),
              [Print ''Fetching Album...'', Call (FromAlbum r f u g t None)]))"
    by (intro impI) (rule parse_request_Album)
  have t5: "classify r = Playlist \<longrightarrow> parse_request E r f u g t =
        (case from_playlist E r f u g t of
           Inl e \<Rightarrow> (Inl e, [Print ''Fetching Playlist...'', Call (FromPlaylist r f u g t)])
         | Inr songs \<Rightarrow>
             (Inr (not_none songs),
              [Print ''Fetching Playlist...'', Call (FromPlaylist r f u g t)]))"
    by (intro impI) (rule parse_request_Playlist)
  have t6: "classify r = Artist \<longrightarrow> parse_request E r f u g t =
        (case from_artist E r f u t of
           Inl e \<Rightarrow> (Inl e, [Print ''Fetching artist...'', Call (FromArtist r f u t)])
         | Inr songs \<Rightarrow>
             (Inr (not_none songs),
              [Print ''Fetching artist...'', Call (FromArtist r f u t)]))"
    by (intro impI) (rule parse_request_Artist)
  have t7: "classify r = SavedLibrary \<longrightarrow> parse_request E r f u g t =
        (case from_saved_tracks E f u t of
           Inl e \<Rightarrow> (Inl e, [Print ''Fetching Saved Songs...'', Call (FromSavedTracks f u t)])
         | Inr songs \<Rightarrow>
             (Inr (not_none songs),
              [Print ''Fetching Saved Songs...'', Call (FromSavedTracks f u t)]))"
    by (intro impI) (rule parse_request_SavedLibrary)
  have t8: "classify r = SearchTerm \<longrightarrow> parse_request E r f u g t =
        (case from_search_term E r f u of
           Inl e \<Rightarrow>
             (Inr [],
              [Print (''Searching Spotify for song named '' @ [CHR 0x22] @ r @ [CHR 0x22]
                      @ ''...''),
               Call (FromSearchTerm r f u), PrintExn e])
         | Inr songs \<Rightarrow>
             (Inr (not_none songs),
              [Print (''Searching Spotify for song named '' @ [CHR 0x22] @ r @ [CHR 0x22]
                      @ ''...''),
               Call (FromSearchTerm r f u)]))"
    by (intro impI) (rule parse_request_SearchTerm)
  note c8 = conjI [OF t8 priority_of_patterns [of r E f u g t]]
  note c7 = conjI [OF t7 c8]
  note c6 = conjI [OF t6 c7]
  note c5 = conjI [OF t5 c6]
  note c4 = conjI [OF t4 c5]
  note c3 = conjI [OF t3 c4]
  note c2 = conjI [OF t2 c3]
  show ?thesis
    by (rule conjI [OF t1 c2])
qed

theorem classify_priority_witness:
  "classify ''youtube.com/watch?v=1|open.spotify.com/track/2'' = PairedTrackURLs
   \<and> hd (snd (parse_request env_ok ''youtube.com/watch?v=1|open.spotify.com/track/2''
                 None False False 1))
       = Print ''Fetching YouTube video with spotify metadata''
   \<and> classify ''music.youtube.com/playlist?list=9|open.spotify.com/playlist/2''
       = PairedPlaylistURLs
   \<and> hd (snd (parse_request env_ok
                 ''music.youtube.com/playlist?list=9|open.spotify.com/playlist/2''
                 None False False 1))
       = Print ''Fetching YouTube Music playlist with spotify metadata''
   \<and> classify ''open.spotify.com/track/2'' = SingleTrack
   \<and> snd (parse_request env_ok ''open.spotify.com/track/2'' None False False 1)
       = [Print ''Fetching Song...'',
          Call (FromSpotifyUrl ''open.spotify.com/track/2'' None False)]
   \<and> classify ''open.spotify.com/album/1'' = Album
   \<and> snd (parse_request env_ok ''open.spotify.com/album/1'' None False False 1)
       = [Print ''Fetching Album...'',
          Call (FromAlbum ''open.spotify.com/album/1'' None False False 1 None)]
   \<and> classify ''open.spotify.com/playlist/2'' = Playlist
   \<and> snd (parse_request env_ok ''open.spotify.com/playlist/2'' None False False 1)
       = [Print ''Fetching Playlist...'',
          Call (FromPlaylist ''open.spotify.com/playlist/2'' None False False 1)]
   \<and> classify ''open.spotify.com/artist/3'' = Artist
   \<and> snd (parse_request env_ok ''open.spotify.com/artist/3'' None False False 1)
       = [Print ''Fetching artist...'',
          Call (FromArtist ''open.spotify.com/artist/3'' None False 1)]
   \<and> classify ''saved'' = SavedLibrary
   \<and> snd (parse_request env_ok ''saved'' None False False 1)
       = [Print ''Fetching Saved Songs...'', Call (FromSavedTracks None False 1)]
   \<and> classify ''hello'' = SearchTerm
   \<and> snd (parse_request env_ok ''hello'' None False False 1)
       = [Print (''Searching Spotify for song named '' @ [CHR 0x22] @ ''hello'' @ [CHR 0x22]
                 @ ''...''),
          Call (FromSearchTerm ''hello'' None False)]
   \<and> (paired_track_pattern ''youtube.com/watch?v=1|open.spotify.com/track/2''
       \<and> single_track_pattern ''youtube.com/watch?v=1|open.spotify.com/track/2'')
   \<and> Call (FromSpotifyUrl ''youtube.com/watch?v=1|open.spotify.com/track/2'' None False)
        \<notin> set (snd (parse_request env_ok ''youtube.com/watch?v=1|open.spotify.com/track/2''
                        None False False 1))
   \<and> (\<not> paired_track_pattern ''hello'' \<and> \<not> paired_playlist_pattern ''hello''
       \<and> \<not> single_track_pattern ''hello'' \<and> \<not> album_pattern ''hello''
       \<and> \<not> playlist_pattern ''hello'' \<and> \<not> artist_pattern ''hello'' \<and> ''hello'' \<noteq> ''saved'')"
proof -
  let ?r1 = "''youtube.com/watch?v=1|open.spotify.com/track/2''"
  let ?r2 = "''music.youtube.com/playlist?list=9|open.spotify.com/playlist/2''"
  let ?r3 = "''open.spotify.com/track/2''"
  let ?r4 = "''open.spotify.com/album/1''"
  let ?r5 = "''open.spotify.com/playlist/2''"
  let ?r6 = "''open.spotify.com/artist/3''"
  note defs = classify_def paired_track_pattern_def paired_playlist_pattern_def
      single_track_pattern_def album_pattern_def playlist_pattern_def artist_pattern_def
  have k1: "classify ?r1 = PairedTrackURLs" by (simp add: defs)
  have k2: "classify ?r2 = PairedPlaylistURLs" by (simp add: defs)
  have k3: "classify ?r3 = SingleTrack" by (simp add: defs)
  have k4: "classify ?r4 = Album" by (simp add: defs)
  have k5: "classify ?r5 = Playlist" by (simp add: defs)
  have k6: "classify ?r6 = Artist" by (simp add: defs)
  have k7: "classify ''saved'' = SavedLibrary" by (simp add: defs)
  have k8: "classify ''hello'' = SearchTerm" by (simp add: defs)
  have u1: "split_on (CHR ''|'') ?r1 = [''youtube.com/watch?v=1'', ''open.spotify.com/track/2'']"
    by simp
  have m1: "\<not> malformed [''youtube.com/watch?v=1'', ''open.spotify.com/track/2'']"
    by (simp add: malformed_def)
  have u2: "split_on (CHR ''|'') ?r2
      = [''music.youtube.com/playlist?list=9'', ''open.spotify.com/playlist/2'']"
    by simp
  have m2: "\<not> malformed [''music.youtube.com/playlist?list=9'', ''open.spotify.com/playlist/2'']"
    by (simp add: malformed_def)
  note e1 = classify_priority [of ?r1 env_ok None False False 1,
      THEN conjunct1, rule_format, OF k1]
  note e2 = classify_priority [of ?r2 env_ok None False False 1,
      THEN conjunct2, THEN conjunct1, rule_format, OF k2]
  note e3 = classify_priority [of ?r3 env_ok None False False 1,
      THEN conjunct2, THEN conjunct2, THEN conjunct1, rule_format, OF k3]
  note e4 = classify_priority [of ?r4 env_ok None False False 1,
      THEN conjunct2, THEN conjunct2, THEN conjunct2, THEN conjunct1, rule_format, OF k4]
  note e5 = classify_priority [of ?r5 env_ok None False False 1,
      THEN conjunct2, THEN conjunct2, THEN conjunct2, THEN conjunct2, THEN conjunct1,
      rule_format, OF k5]
  note e6 = classify_priority [of ?r6 env_ok None False False 1,
      THEN conjunct2, THEN conjunct2, THEN conjunct2, THEN conjunct2, THEN conjunct2,
      THEN conjunct1, rule_format, OF k6]
  note e7 = classify_priority [of "''saved''" env_ok None False False 1,
      THEN conjunct2, THEN conjunct2, THEN conjunct2, THEN conjunct2, THEN conjunct2,
      THEN conjunct2, THEN conjunct1, rule_format, OF k7]
  note e8 = classify_priority [of "''hello''" env_ok None False False 1,
      THEN conjunct2, THEN conjunct2, THEN conjunct2, THEN conjunct2, THEN conjunct2,
      THEN conjunct2, THEN conjunct2, THEN conjunct1, rule_format, OF k8]
  have a1: "hd (snd (parse_request env_ok ?r1 None False False 1))
       = Print ''Fetching YouTube video with spotify metadata''"
    unfolding e1 u1 using m1 by (simp split: prod.split sum.split)
  have a2: "hd (snd (parse_request env_ok ?r2 None False False 1))
       = Print ''Fetching YouTube Music playlist with spotify metadata''"
    unfolding e2 u2 using m2 by (simp split: prod.split sum.split)
  have a3: "snd (parse_request env_ok ?r3 None False False 1)
       = [Print ''Fetching Song...'', Call (FromSpotifyUrl ?r3 None False)]"
    unfolding e3 by (simp add: env_ok_def)
  have a4: "snd (parse_request env_ok ?r4 None False False 1)
       = [Print ''Fetching Album...'', Call (FromAlbum ?r4 None False False 1 None)]"
    unfolding e4 by (simp add: env_ok_def)
  have a5: "snd (parse_request env_ok ?r5 None False False 1)
       = [Print ''Fetching Playlist...'', Call (FromPlaylist ?r5 None False False 1)]"
    unfolding e5 by (simp add: env_ok_def)
  have a6: "snd (parse_request env_ok ?r6 None False False 1)
       = [Print ''Fetching artist...'', Call (FromArtist ?r6 None False 1)]"
    unfolding e6 by (simp add: env_ok_def)
  have a7: "snd (parse_request env_ok ''saved'' None False False 1)
       = [Print ''Fetching Saved Songs...'', Call (FromSavedTracks None False 1)]"
    unfolding e7 by (simp add: env_ok_def)
  have a8: "snd (parse_request env_ok ''hello'' None False False 1)
       = [Print (''Searching Spotify for song named '' @ [CHR 0x22] @ ''hello'' @ [CHR 0x22]
                 @ ''...''),
          Call (FromSearchTerm ''hello'' None False)]"
    unfolding e8 by (simp add: env_ok_def)
  have h1: "paired_track_pattern ?r1 \<and> single_track_pattern ?r1"
    by (simp add: paired_track_pattern_def single_track_pattern_def)
  have h2: "\<not> paired_track_pattern ''hello'' \<and> \<not> paired_playlist_pattern ''hello''
       \<and> \<not> single_track_pattern ''hello'' \<and> \<not> album_pattern ''hello''
       \<and> \<not> playlist_pattern ''hello'' \<and> \<not> artist_pattern ''hello'' \<and> ''hello'' \<noteq> ''saved''"
    by (simp add: paired_track_pattern_def paired_playlist_pattern_def
        single_track_pattern_def album_pattern_def playlist_pattern_def artist_pattern_def)
  note p = classify_priority [of ?r1 env_ok None False False 1,
      THEN conjunct2, THEN conjunct2, THEN conjunct2, THEN conjunct2, THEN conjunct2,
      THEN conjunct2, THEN conjunct2, THEN conjunct2, THEN conjunct1, rule_format, OF h1]
  note s = classify_priority [of "''hello''" env_ok None False False 1,
      THEN conjunct2, THEN conjunct2, THEN conjunct2, THEN conjunct2, THEN conjunct2,
      THEN conjunct2, THEN conjunct2, THEN conjunct2, THEN conjunct2, THEN conjunct1,
      rule_format, OF h2]
  have p2: "Call (FromSpotifyUrl ?r1 None False)
        \<notin> set (snd (parse_request env_ok ?r1 None False False 1))"
    using p by (elim conjE)
  have s1: "classify ''hello'' = SearchTerm"
    using s by (rule conjunct1)
  show ?thesis
    by (intro conjI k1 a1 k2 a2 k3 a3 k4 a4 k5 a5 k6 a6 k7 a7 s1 a8 h1 p2 h2)
qed

section \<open>Duplicate removal: claim C6\<close>

lemma dedup_loop_acc: "dedup_loop E seen songs l = songs @ dedup_loop E seen [] l"
proof (induction l arbitrary: seen songs)
  case Nil
  show ?case by simp
next
  case (Cons x l)
  show ?case
    using Cons.IH [of "insert (file_name E x) seen" "songs @ [x]"]
          Cons.IH [of "insert (file_name E x) seen" "[x]"]
          Cons.IH [of seen songs]
    by simp
qed

lemma dedup_loop_keys:
  "set (map (file_name E) (dedup_loop E seen [] l)) = set (map (file_name E) l) - seen"
proof (induction l arbitrary: seen)
  case Nil
  show ?case by simp
next
  case (Cons x l)
  show ?case
    using Cons.IH [of "insert (file_name E x) seen"] Cons.IH [of seen]
          dedup_loop_acc [of E "insert (file_name E x) seen" "[x]" l]
    by auto
qed

lemma dedup_loop_distinct: "distinct (map (file_name E) (dedup_loop E seen [] l))"
proof (induction l arbitrary: seen)
  case Nil
  show ?case by simp
next
  case (Cons x l)
  show ?case
    using Cons.IH [of "insert (file_name E x) seen"] Cons.IH [of seen]
          dedup_loop_acc [of E "insert (file_name E x) seen" "[x]" l]
          dedup_loop_keys [of E "insert (file_name E x) seen" l]
    by auto
qed

lemma dedup_loop_index:
  "dedup_loop E seen [] l =
     map (nth l) (filter (\<lambda>i. file_name E (l ! i) \<notin> seen \<union> file_name E ` set (take i l))
                    [0..<length l])"
proof (induction l arbitrary: seen)
  case Nil
  show ?case by simp
next
  case (Cons x l)
  have upt: "[0..<length (x # l)] = 0 # map Suc [0..<length l]"
    by (simp add: upt_conv_Cons map_Suc_upt del: upt_Suc)
  have shift: "filter P [0..<length (x # l)] =
      (if P 0 then [0] else []) @ map Suc (filter (\<lambda>i. P (Suc i)) [0..<length l])" for P
    unfolding upt by (simp add: filter_map comp_def)
  show ?case
  proof (cases "file_name E x \<in> seen")
    case True
    have pred: "(\<lambda>i. file_name E ((x # l) ! Suc i)
                    \<notin> seen \<union> file_name E ` set (take (Suc i) (x # l)))
        = (\<lambda>i. file_name E (l ! i) \<notin> seen \<union> file_name E ` set (take i l))"
      using True by (intro ext) auto
    show ?thesis
      unfolding shift pred using True Cons.IH [of seen]
      by (simp add: comp_def)
  next
    case False
    have pred: "(\<lambda>i. file_name E ((x # l) ! Suc i)
                    \<notin> seen \<union> file_name E ` set (take (Suc i) (x # l)))
        = (\<lambda>i. file_name E (l ! i)
                    \<notin> insert (file_name E x) seen \<union> file_name E ` set (take i l))"
      by (intro ext) auto
    show ?thesis
      unfolding shift pred using False Cons.IH [of "insert (file_name E x) seen"]
          dedup_loop_acc [of E "insert (file_name E x) seen" "[x]" l]
      by (simp add: comp_def)
  qed
qed

lemma query_loop_concat:
  "fst (query_loop E acc ev qs f u g t) = Inr l \<Longrightarrow>
   l = acc @ concat (map (\<lambda>r. case fst (parse_request E r f u g t) of
                                  Inl e \<Rightarrow> [] | Inr xs \<Rightarrow> xs)
                      (filter (\<lambda>r. \<not> endswith r ''.spotdlTrackingFile'') qs))"
proof (induction qs arbitrary: acc ev)
  case Nil
  then show ?case by simp
next
  case (Cons r qs)
  show ?case
  proof (cases "endswith r ''.spotdlTrackingFile''")
    case True
    with Cons show ?thesis by simp
  next
    case False
    obtain res ev' where p: "parse_request E r f u g t = (res, ev')"
      by (cases "parse_request E r f u g t")
    show ?thesis
    proof (cases res)
      case (Inl e)
      with Cons.prems False p show ?thesis by simp
    next
      case (Inr xs)
      with Cons.prems False p
      have "fst (query_loop E (acc @ xs) (ev @ ev' @ [Print []]) qs f u g t) = Inr l"
        by simp
      from Cons.IH [OF this] False p Inr show ?thesis by simp
    qed
  qed
qed

text \<open>
  C6.  When \<open>parse_query\<close> returns, its result is the concatenation of the results of
  the requests (tracking files skipped) with, for every file name, the first song
  of that name kept and every later one dropped, in the order of the concatenation;
  no two songs of the result have the same file name.
\<close>

theorem parse_query_dedup:
  assumes "fst (parse_query E query f u g t) = Inr out"
  shows "let songs_list =
           concat (map (\<lambda>r. case fst (parse_request E r f u g t) of
                               Inl e \<Rightarrow> [] | Inr xs \<Rightarrow> xs)
                     (filter (\<lambda>r. \<not> endswith r ''.spotdlTrackingFile'') query))
         in out = map (nth songs_list)
                    (filter (\<lambda>i. file_name E (songs_list ! i)
                                   \<notin> file_name E ` set (take i songs_list))
                       [0..<length songs_list])
            \<and> distinct (map (file_name E) out)"
proof -
  obtain res ev where q: "query_loop E [] [] query f u g t = (res, ev)"
    by (cases "query_loop E [] [] query f u g t")
  show ?thesis
  proof (cases res)
    case (Inl e)
    with assms q show ?thesis by (simp add: parse_query_def)
  next
    case (Inr l)
    with assms q have out: "out = dedup_loop E {} [] l"
      by (simp add: parse_query_def)
    from q Inr have "fst (query_loop E [] [] query f u g t) = Inr l"
      by simp
    from query_loop_concat [OF this] out show ?thesis
      using dedup_loop_index [of E "{}" l] dedup_loop_distinct [of E "{}" l]
      by (simp add: Let_def)
  qed
qed


lemma search_ok:
  assumes "classify r = SearchTerm"
  shows "parse_request env_ok r None False False 1 =
    (Inr [sample_song r],
     [Print (''Searching Spotify for song named '' @ [CHR 0x22] @ r @ [CHR 0x22] @ ''...''),
      Call (FromSearchTerm r None False)])"
  by (simp add: parse_request_SearchTerm [OF assms] env_ok_def)

lemma classify_letters:
  "classify ''A'' = SearchTerm" "classify ''B'' = SearchTerm" "classify ''C'' = SearchTerm"
  by (simp_all add: classify_def paired_track_pattern_def paired_playlist_pattern_def
        single_track_pattern_def album_pattern_def playlist_pattern_def artist_pattern_def)

theorem parse_query_dedup_witness:
  "fst (query_loop env_ok [] [] [''A'', ''B'', ''A'', ''C''] None False False 1)
     = Inr [sample_song ''A'', sample_song ''B'', sample_song ''A'', sample_song ''C'']
   \<and> fst (parse_query env_ok [''A'', ''B'', ''A'', ''C''] None False False 1)
     = Inr [sample_song ''A'', sample_song ''B'', sample_song ''C'']
   \<and> map (file_name env_ok) [sample_song ''A'', sample_song ''B'', sample_song ''C'']
     = [''A'', ''B'', ''C'']
   \<and> distinct (map (file_name env_ok) [sample_song ''A'', sample_song ''B'', sample_song ''C''])"
proof -
  have e: "\<not> endswith ''A'' ''.spotdlTrackingFile''" "\<not> endswith ''B'' ''.spotdlTrackingFile''"
      "\<not> endswith ''C'' ''.spotdlTrackingFile''"
    by (simp_all add: endswith_def)
  have n: "file_name env_ok (sample_song x) = x" for x
    by (simp add: file_name_def env_ok_def sample_song_def SongObject_init_def)
  have h: "fst (parse_query env_ok [''A'', ''B'', ''A'', ''C''] None False False 1)
     = Inr [sample_song ''A'', sample_song ''B'', sample_song ''C'']"
    by (simp add: parse_query_def e search_ok [OF classify_letters(1)]
        search_ok [OF classify_letters(2)] search_ok [OF classify_letters(3)] n)
  have l: "fst (query_loop env_ok [] [] [''A'', ''B'', ''A'', ''C''] None False False 1)
     = Inr [sample_song ''A'', sample_song ''B'', sample_song ''A'', sample_song ''C'']"
    by (simp add: e search_ok [OF classify_letters(1)]
        search_ok [OF classify_letters(2)] search_ok [OF classify_letters(3)])
  have d: "distinct (map (file_name env_ok)
      [sample_song ''A'', sample_song ''B'', sample_song ''C''])"
    using parse_query_dedup [OF h] unfolding Let_def by (rule conjunct2)
  have m: "map (file_name env_ok) [sample_song ''A'', sample_song ''B'', sample_song ''C'']
     = [''A'', ''B'', ''C'']"
    by (simp add: n)
  show ?thesis
    by (intro conjI l h m d)
qed


section \<open>Paired track requests: claim C9\<close>






section \<open>No candidates: claim C5\<close>

lemma query_loop_fst_ev:
  "fst (query_loop E acc ev qs f u g t) = fst (query_loop E acc ev' qs f u g t)"
proof (induction qs arbitrary: acc ev ev')
  case Nil
  show ?case by simp
next
  case (Cons r qs)
  obtain res evr where p: "parse_request E r f u g t = (res, evr)"
    by (cases "parse_request E r f u g t")
  show ?case
  proof (cases "endswith r ''.spotdlTrackingFile''")
    case True
    then show ?thesis using Cons.IH [of acc ev ev'] by simp
  next
    case False
    show ?thesis
    proof (cases res)
      case (Inl e)
      with False p show ?thesis by simp
    next
      case (Inr xs)
      with False p show ?thesis
        using Cons.IH [of "acc @ xs" "ev @ evr @ [Print []]" "ev' @ evr @ [Print []]"]
        by simp
    qed
  qed
qed

lemma query_loop_empty_request:
  assumes "parse_request E r f u g t = (Inr [], evr)"
  shows "fst (query_loop E acc ev (before @ r # after) f u g t)
       = fst (query_loop E acc ev (before @ after) f u g t)"
proof (induction before arbitrary: acc ev)
  case Nil
  show ?case
    using assms query_loop_fst_ev [of E acc "ev @ evr @ [Print []]" after f u g t ev]
    by (cases "endswith r ''.spotdlTrackingFile''") simp_all
next
  case (Cons b before)
  obtain res evb where p: "parse_request E b f u g t = (res, evb)"
    by (cases "parse_request E b f u g t")
  show ?case
  proof (cases "endswith b ''.spotdlTrackingFile''")
    case True
    then show ?thesis using Cons.IH [of acc ev] by simp
  next
    case False
    show ?thesis
    proof (cases res)
      case (Inl e)
      with False p show ?thesis by simp
    next
      case (Inr xs)
      with False p show ?thesis
        using Cons.IH [of "acc @ xs" "ev @ evb @ [Print []]"] by simp
    qed
  qed
qed

lemma parse_query_fst:
  "fst (parse_query E qs f u g t) =
     (case fst (query_loop E [] [] qs f u g t) of
        Inl e \<Rightarrow> Inl e | Inr l \<Rightarrow> Inr (dedup_loop E {} [] l))"
  by (simp add: parse_query_def split: prod.split sum.split)

text \<open>
  C5.  For a paired-playlist request that passes the marker test, when the catalog
  fetch returns (any number of songs) and the audio source returns no entry, the
  request prints that no download links were found and gives the empty list; the
  batch does not raise there and its result is the result of the batch without that
  request.
\<close>

theorem no_candidates_empty:
  assumes "classify request = PairedPlaylistURLs"
    and "\<not> malformed (split_on (CHR ''|'') request)"
    and "from_album E (split_on (CHR ''|'') request ! 1) f False g t (Some True) = Inr song_list"
    and "get_metadata_for_playlist E (split_on (CHR ''|'') request ! 0) = Inr ytm_metadata"
    and "map title ytm_metadata = []"
  shows "parse_request E request f u g t =
      (Inr [],
       [Print ''Fetching YouTube Music playlist with spotify metadata'',
        Print (''Gathering Spotify Metadata for: '' @ split_on (CHR ''|'') request ! 1),
        Call (FromAlbum (split_on (CHR ''|'') request ! 1) f False g t (Some True)),
        Call (GetMetadataForPlaylist (split_on (CHR ''|'') request ! 0)),
        Print (''Can not find download links from Youtube Music for ''
               @ split_on (CHR ''|'') request ! 0)])
    \<and> fst (parse_query E (before @ request # after) f u g t)
        = fst (parse_query E (before @ after) f u g t)"
proof -
  let ?urls = "split_on (CHR ''|'') request"
  have p: "get_youtube_meta_playlist E (?urls ! 0) (?urls ! 1) f g t =
      (Inr [],
       [Print (''Gathering Spotify Metadata for: '' @ ?urls ! 1),
        Call (FromAlbum (?urls ! 1) f False g t (Some True)),
        Call (GetMetadataForPlaylist (?urls ! 0)),
        Print (''Can not find download links from Youtube Music for '' @ ?urls ! 0)])"
    using assms(3,4,5)
    by (simp add: get_youtube_meta_playlist_def Let_def del: One_nat_def)
  have r: "parse_request E request f u g t =
      (Inr [],
       [Print ''Fetching YouTube Music playlist with spotify metadata'',
        Print (''Gathering Spotify Metadata for: '' @ ?urls ! 1),
        Call (FromAlbum (?urls ! 1) f False g t (Some True)),
        Call (GetMetadataForPlaylist (?urls ! 0)),
        Print (''Can not find download links from Youtube Music for '' @ ?urls ! 0)])"
    by (simp add: parse_request_PairedPlaylist [OF assms(1)] assms(2) p keep_not_none_def
        del: One_nat_def)
  have b: "fst (parse_query E (before @ request # after) f u g t)
        = fst (parse_query E (before @ after) f u g t)"
    unfolding parse_query_fst
    by (simp only: query_loop_empty_request [OF r])
  from r b show ?thesis by (rule conjI)
qed


theorem no_candidates_empty_witness:
  "classify ''music.youtube.com/playlist?list=9|open.spotify.com/album/2'' = PairedPlaylistURLs
   \<and> \<not> malformed (split_on (CHR ''|'')
                      ''music.youtube.com/playlist?list=9|open.spotify.com/album/2'')
   \<and> from_album env_no_candidates ''open.spotify.com/album/2'' None False False 1 (Some True)
       = Inr [Some (sample_song ''A b''), Some (sample_song ''xyz'')]
   \<and> get_metadata_for_playlist env_no_candidates ''music.youtube.com/playlist?list=9'' = Inr []
   \<and> fst (parse_request env_no_candidates
            ''music.youtube.com/playlist?list=9|open.spotify.com/album/2'' None False False 1)
       = Inr []
   \<and> fst (parse_query env_no_candidates
            [''A'', ''music.youtube.com/playlist?list=9|open.spotify.com/album/2'', ''B'']
            None False False 1)
       = Inr [sample_song ''A'', sample_song ''B'']"
proof -
  let ?r = "''music.youtube.com/playlist?list=9|open.spotify.com/album/2''"
  let ?E = env_no_candidates
  have u: "split_on (CHR ''|'') ?r
      = [''music.youtube.com/playlist?list=9'', ''open.spotify.com/album/2'']"
    by simp
  have h1: "classify ?r = PairedPlaylistURLs"
    by (simp add: classify_def paired_track_pattern_def paired_playlist_pattern_def)
  have h2: "\<not> malformed (split_on (CHR ''|'') ?r)"
    unfolding u by (simp add: malformed_def)
  have a: "from_album ?E ''open.spotify.com/album/2'' None False False 1 (Some True)
       = Inr [Some (sample_song ''A b''), Some (sample_song ''xyz'')]"
    by (simp add: env_no_candidates_def env_ok_def)
  have m: "get_metadata_for_playlist ?E ''music.youtube.com/playlist?list=9'' = Inr []"
    by (simp add: env_no_candidates_def)
  have h3: "from_album ?E (split_on (CHR ''|'') ?r ! 1) None False False 1 (Some True)
       = Inr [Some (sample_song ''A b''), Some (sample_song ''xyz'')]"
    unfolding u using a by simp
  have h4: "get_metadata_for_playlist ?E (split_on (CHR ''|'') ?r ! 0) = Inr []"
    unfolding u using m by simp
  have h5: "map title ([] :: ytm_entry list) = []"
    by simp
  note c = no_candidates_empty [OF h1 h2 h3 h4 h5, of False "[''A'']" "[''B'']"]
  have r: "fst (parse_request ?E ?r None False False 1) = Inr []"
    using c [THEN conjunct1] by simp
  have e: "\<not> endswith ''A'' ''.spotdlTrackingFile''" "\<not> endswith ''B'' ''.spotdlTrackingFile''"
    by (simp_all add: endswith_def)
  have s: "parse_request ?E x None False False 1 =
      (Inr [sample_song x],
       [Print (''Searching Spotify for song named '' @ [CHR 0x22] @ x @ [CHR 0x22] @ ''...''),
        Call (FromSearchTerm x None False)])"
    if "classify x = SearchTerm" for x
    by (simp add: parse_request_SearchTerm [OF that] env_no_candidates_def env_ok_def)
  have n: "file_name ?E (sample_song x) = x" for x
    by (simp add: file_name_def env_no_candidates_def env_ok_def sample_song_def
        SongObject_init_def)
  have "fst (parse_query ?E [''A'', ''B''] None False False 1)
      = Inr [sample_song ''A'', sample_song ''B'']"
    by (simp add: parse_query_def e s [OF classify_letters(1)] s [OF classify_letters(2)] n)
  with c [THEN conjunct2]
  have q: "fst (parse_query ?E [''A'', ?r, ''B''] None False False 1)
      = Inr [sample_song ''A'', sample_song ''B'']"
    by simp
  show ?thesis
    by (intro conjI h1 h2 a m r q)
qed


section \<open>The matching loop: claim C2\<close>

lemma min_from_enumerate:
  fixes cd :: "string \<Rightarrow> int"
  assumes "im < n"
  shows "(min_from (dm, im, tm) (map (\<lambda>(idx, yt). (cd yt, idx, yt)) (enumerate n ts)) = (dm, im, tm)
          \<and> (\<forall>j<length ts. dm \<le> cd (ts ! j)))
       \<or> (\<exists>k<length ts.
            min_from (dm, im, tm) (map (\<lambda>(idx, yt). (cd yt, idx, yt)) (enumerate n ts))
              = (cd (ts ! k), n + k, ts ! k)
            \<and> cd (ts ! k) < dm
            \<and> (\<forall>j<length ts. cd (ts ! k) \<le> cd (ts ! j))
            \<and> (\<forall>j<k. cd (ts ! k) < cd (ts ! j)))"
  using assms
proof (induction ts arbitrary: dm im tm n)
  case Nil
  show ?case by simp
next
  case (Cons y ys)
  let ?F = "\<lambda>(idx, yt). (cd yt, idx, yt)"
  have lt: "tuple_less (cd y, n, y) (dm, im, tm) \<longleftrightarrow> cd y < dm"
    using Cons.prems by auto
  show ?case
  proof (cases "cd y < dm")
    case True
    have step: "min_from (dm, im, tm) (map ?F (enumerate n (y # ys)))
        = min_from (cd y, n, y) (map ?F (enumerate (Suc n) ys))"
      using True lt by (simp del: tuple_less.simps)
    have "n < Suc n" by simp
    from Cons.IH [OF this, of "cd y" y]
    show ?thesis
    proof
      assume a: "min_from (cd y, n, y) (map ?F (enumerate (Suc n) ys)) = (cd y, n, y)
          \<and> (\<forall>j<length ys. cd y \<le> cd (ys ! j))"
      have "0 < length (y # ys)" by simp
      moreover have "min_from (dm, im, tm) (map ?F (enumerate n (y # ys)))
          = (cd ((y # ys) ! 0), n + 0, (y # ys) ! 0)"
        using a step by simp
      moreover have "cd ((y # ys) ! 0) < dm" using True by simp
      moreover have "\<forall>j<length (y # ys). cd ((y # ys) ! 0) \<le> cd ((y # ys) ! j)"
        using a by (auto simp: less_Suc_eq_0_disj)
      moreover have "\<forall>j<0. cd ((y # ys) ! 0) < cd ((y # ys) ! j)" by simp
      ultimately show ?thesis by blast
    next
      assume "\<exists>k<length ys.
            min_from (cd y, n, y) (map ?F (enumerate (Suc n) ys))
              = (cd (ys ! k), Suc n + k, ys ! k)
            \<and> cd (ys ! k) < cd y
            \<and> (\<forall>j<length ys. cd (ys ! k) \<le> cd (ys ! j))
            \<and> (\<forall>j<k. cd (ys ! k) < cd (ys ! j))"
      then obtain k where k: "k < length ys"
          "min_from (cd y, n, y) (map ?F (enumerate (Suc n) ys)) = (cd (ys ! k), Suc n + k, ys ! k)"
          "cd (ys ! k) < cd y" "\<forall>j<length ys. cd (ys ! k) \<le> cd (ys ! j)"
          "\<forall>j<k. cd (ys ! k) < cd (ys ! j)"
        by blast
      have "Suc k < length (y # ys)" using k(1) by simp
      moreover have "min_from (dm, im, tm) (map ?F (enumerate n (y # ys)))
          = (cd ((y # ys) ! Suc k), n + Suc k, (y # ys) ! Suc k)"
        using k(2) step by simp
      moreover have "cd ((y # ys) ! Suc k) < dm" using k(3) True by simp
      moreover have "\<forall>j<length (y # ys). cd ((y # ys) ! Suc k) \<le> cd ((y # ys) ! j)"
        using k(3,4) by (auto simp: less_Suc_eq_0_disj)
      moreover have "\<forall>j<Suc k. cd ((y # ys) ! Suc k) < cd ((y # ys) ! j)"
        using k(3,5) by (auto simp: less_Suc_eq_0_disj)
      ultimately show ?thesis by blast
    qed
  next
    case False
    have step: "min_from (dm, im, tm) (map ?F (enumerate n (y # ys)))
        = min_from (dm, im, tm) (map ?F (enumerate (Suc n) ys))"
      using False lt by (simp del: tuple_less.simps)
    have "im < Suc n" using Cons.prems by simp
    from Cons.IH [OF this, of dm tm]
    show ?thesis
    proof
      assume a: "min_from (dm, im, tm) (map ?F (enumerate (Suc n) ys)) = (dm, im, tm)
          \<and> (\<forall>j<length ys. dm \<le> cd (ys ! j))"
      have "min_from (dm, im, tm) (map ?F (enumerate n (y # ys))) = (dm, im, tm)"
        using a step by simp
      moreover have "\<forall>j<length (y # ys). dm \<le> cd ((y # ys) ! j)"
        using a False by (auto simp: less_Suc_eq_0_disj)
      ultimately show ?thesis by blast
    next
      assume "\<exists>k<length ys.
            min_from (dm, im, tm) (map ?F (enumerate (Suc n) ys))
              = (cd (ys ! k), Suc n + k, ys ! k)
            \<and> cd (ys ! k) < dm
            \<and> (\<forall>j<length ys. cd (ys ! k) \<le> cd (ys ! j))
            \<and> (\<forall>j<k. cd (ys ! k) < cd (ys ! j))"
      then obtain k where k: "k < length ys"
          "min_from (dm, im, tm) (map ?F (enumerate (Suc n) ys)) = (cd (ys ! k), Suc n + k, ys ! k)"
          "cd (ys ! k) < dm" "\<forall>j<length ys. cd (ys ! k) \<le> cd (ys ! j)"
          "\<forall>j<k. cd (ys ! k) < cd (ys ! j)"
        by blast
      have "Suc k < length (y # ys)" using k(1) by simp
      moreover have "min_from (dm, im, tm) (map ?F (enumerate n (y # ys)))
          = (cd ((y # ys) ! Suc k), n + Suc k, (y # ys) ! Suc k)"
        using k(2) step by simp
      moreover have "cd ((y # ys) ! Suc k) < dm" using k(3) by simp
      moreover have "\<forall>j<length (y # ys). cd ((y # ys) ! Suc k) \<le> cd ((y # ys) ! j)"
        using k(3,4) False by (auto simp: less_Suc_eq_0_disj)
      moreover have "\<forall>j<Suc k. cd ((y # ys) ! Suc k) < cd ((y # ys) ! j)"
        using k(3,5) False by (auto simp: less_Suc_eq_0_disj)
      ultimately show ?thesis by blast
    qed
  qed
qed


lemma py_min_best:
  assumes "titles \<noteq> []"
  shows "\<exists>i<length titles.
           py_min (diff_scores t titles) = Inr (compute_diff t (titles ! i), i, titles ! i)
           \<and> (\<forall>j<length titles. compute_diff t (titles ! i) \<le> compute_diff t (titles ! j))
           \<and> (\<forall>j<i. compute_diff t (titles ! i) < compute_diff t (titles ! j))"
proof -
  let ?cd = "compute_diff t"
  let ?F = "\<lambda>(idx, yt). (?cd yt, idx, yt)"
  from assms obtain y ys where ts: "titles = y # ys"
    by (cases titles) auto
  have p: "py_min (diff_scores t titles) = Inr (min_from (?cd y, 0, y) (map ?F (enumerate (Suc 0) ys)))"
    by (simp add: ts diff_scores_def)
  have "(0::nat) < Suc 0" by simp
  from min_from_enumerate [OF this, where cd = ?cd and dm = "?cd y" and tm = y and ts = ys]
  show ?thesis
  proof
    assume a: "min_from (?cd y, 0, y) (map ?F (enumerate (Suc 0) ys)) = (?cd y, 0, y)
        \<and> (\<forall>j<length ys. ?cd y \<le> ?cd (ys ! j))"
    have "0 < length titles" by (simp add: ts)
    moreover have "py_min (diff_scores t titles) = Inr (?cd (titles ! 0), 0, titles ! 0)"
      using a p by (simp add: ts)
    moreover have "\<forall>j<length titles. ?cd (titles ! 0) \<le> ?cd (titles ! j)"
      using a by (auto simp: ts less_Suc_eq_0_disj)
    moreover have "\<forall>j<0. ?cd (titles ! 0) < ?cd (titles ! j)" by simp
    ultimately show ?thesis by blast
  next
    assume "\<exists>k<length ys.
        min_from (?cd y, 0, y) (map ?F (enumerate (Suc 0) ys))
          = (?cd (ys ! k), Suc 0 + k, ys ! k)
        \<and> ?cd (ys ! k) < ?cd y
        \<and> (\<forall>j<length ys. ?cd (ys ! k) \<le> ?cd (ys ! j))
        \<and> (\<forall>j<k. ?cd (ys ! k) < ?cd (ys ! j))"
    then obtain k where k: "k < length ys"
        "min_from (?cd y, 0, y) (map ?F (enumerate (Suc 0) ys)) = (?cd (ys ! k), Suc 0 + k, ys ! k)"
        "?cd (ys ! k) < ?cd y" "\<forall>j<length ys. ?cd (ys ! k) \<le> ?cd (ys ! j)"
        "\<forall>j<k. ?cd (ys ! k) < ?cd (ys ! j)"
      by blast
    have "Suc k < length titles" using k(1) by (simp add: ts)
    moreover have "py_min (diff_scores t titles)
        = Inr (?cd (titles ! Suc k), Suc k, titles ! Suc k)"
      using k(2) p by (simp add: ts)
    moreover have "\<forall>j<length titles. ?cd (titles ! Suc k) \<le> ?cd (titles ! j)"
      using k(3,4) by (auto simp: ts less_Suc_eq_0_disj)
    moreover have "\<forall>j<Suc k. ?cd (titles ! Suc k) < ?cd (titles ! j)"
      using k(3,5) by (auto simp: ts less_Suc_eq_0_disj)
    ultimately show ?thesis by blast
  qed
qed

lemma match_loop_step:
  assumes "titles = map title md" and "titles \<noteq> []"
  shows "\<exists>i<length titles.
      (\<forall>j<length titles. compute_diff (song_name s) (titles ! i)
                            \<le> compute_diff (song_name s) (titles ! j))
      \<and> (\<forall>j<i. compute_diff (song_name s) (titles ! i) < compute_diff (song_name s) (titles ! j))
      \<and> match_loop md titles (Some s # rest) =
          (case match_loop md titles rest of
             (Inl e, ev) \<Rightarrow>
               (Inl e,
                (if compute_diff (song_name s) (titles ! i) \<noteq> 0
                 then [PrintMismatch (song_name s) (titles ! i)
                         (compute_diff (song_name s) (titles ! i))]
                 else [])
                @ [PrintDebug (song_name s)
                     (compute_diff (song_name s) (titles ! i), i, titles ! i)
                     (''https://www.youtube.com/watch?v='' @ videoId (md ! i))]
                @ ev)
           | (Inr songs, ev) \<Rightarrow>
               (Inr (Some (s\<lparr>youtube_link :=
                              Some (''https://www.youtube.com/watch?v='' @ videoId (md ! i))\<rparr>)
                     # songs),
                (if compute_diff (song_name s) (titles ! i) \<noteq> 0
                 then [PrintMismatch (song_name s) (titles ! i)
                         (compute_diff (song_name s) (titles ! i))]
                 else [])
                @ [PrintDebug (song_name s)
                     (compute_diff (song_name s) (titles ! i), i, titles ! i)
                     (''https://www.youtube.com/watch?v='' @ videoId (md ! i))]
                @ ev))"
proof -
  from py_min_best [OF assms(2), of "song_name s"]
  obtain i where i: "i < length titles"
      "py_min (diff_scores (song_name s) titles)
         = Inr (compute_diff (song_name s) (titles ! i), i, titles ! i)"
      "\<forall>j<length titles. compute_diff (song_name s) (titles ! i)
                            \<le> compute_diff (song_name s) (titles ! j)"
      "\<forall>j<i. compute_diff (song_name s) (titles ! i) < compute_diff (song_name s) (titles ! j)"
    by blast
  from i(1) assms(1) have l: "i < length md" by simp
  obtain r ev where m: "match_loop md titles rest = (r, ev)"
    by (cases "match_loop md titles rest")
  have "match_loop md titles (Some s # rest) =
          (case match_loop md titles rest of
             (Inl e, ev) \<Rightarrow>
               (Inl e,
                (if compute_diff (song_name s) (titles ! i) \<noteq> 0
                 then [PrintMismatch (song_name s) (titles ! i)
                         (compute_diff (song_name s) (titles ! i))]
                 else [])
                @ [PrintDebug (song_name s)
                     (compute_diff (song_name s) (titles ! i), i, titles ! i)
                     (''https://www.youtube.com/watch?v='' @ videoId (md ! i))]
                @ ev)
           | (Inr songs, ev) \<Rightarrow>
               (Inr (Some (s\<lparr>youtube_link :=
                              Some (''https://www.youtube.com/watch?v='' @ videoId (md ! i))\<rparr>)
                     # songs),
                (if compute_diff (song_name s) (titles ! i) \<noteq> 0
                 then [PrintMismatch (song_name s) (titles ! i)
                         (compute_diff (song_name s) (titles ! i))]
                 else [])
                @ [PrintDebug (song_name s)
                     (compute_diff (song_name s) (titles ! i), i, titles ! i)
                     (''https://www.youtube.com/watch?v='' @ videoId (md ! i))]
                @ ev))"
    by (cases r) (simp_all add: i(2) l m Let_def)
  with i(1,3,4) show ?thesis by blast
qed

lemma match_loop_mismatch_nonzero:
  "match_loop md ts songs = (r, ev) \<Longrightarrow> PrintMismatch a b c \<in> set ev \<Longrightarrow> c \<noteq> 0"
proof (induction songs arbitrary: r ev)
  case Nil
  then show ?case by simp
next
  case (Cons s rest)
  show ?case
  proof (cases s)
    case None
    with Cons.prems show ?thesis by simp
  next
    case (Some song)
    with Cons show ?thesis
      by (auto simp: Let_def split: sum.splits prod.splits if_splits)
  qed
qed


lemma lowest_minimiser_iff:
  "lowest_minimiser t titles i \<longleftrightarrow>
     i < length titles
     \<and> (\<forall>j<length titles. compute_diff t (titles ! i) \<le> compute_diff t (titles ! j))
     \<and> (\<forall>j<i. compute_diff t (titles ! i) < compute_diff t (titles ! j))"
proof (cases "i < length titles")
  case True
  have a: "(\<forall>yt \<in> set titles. P yt) \<longleftrightarrow> (\<forall>j<length titles. P (titles ! j))" for P
    by (simp add: all_set_conv_all_nth)
  have b: "(\<forall>yt \<in> set (take i titles). P yt) \<longleftrightarrow> (\<forall>j<i. P (titles ! j))" for P
    using True by (simp add: all_set_conv_all_nth)
  show ?thesis
    unfolding lowest_minimiser_def a b ..
next
  case False
  then show ?thesis by (simp add: lowest_minimiser_def)
qed

lemma lowest_minimiser_unique:
  assumes "lowest_minimiser t titles i" and "lowest_minimiser t titles i'"
  shows "i' = i"
proof (rule ccontr)
  assume ne: "i' \<noteq> i"
  from assms have a:
      "i < length titles" "i' < length titles"
      "\<forall>j<length titles. compute_diff t (titles ! i) \<le> compute_diff t (titles ! j)"
      "\<forall>j<length titles. compute_diff t (titles ! i') \<le> compute_diff t (titles ! j)"
      "\<forall>j<i. compute_diff t (titles ! i) < compute_diff t (titles ! j)"
      "\<forall>j<i'. compute_diff t (titles ! i') < compute_diff t (titles ! j)"
    by (simp_all add: lowest_minimiser_iff)
  from ne consider "i' < i" | "i < i'" by linarith
  then show False
  proof cases
    case 1
    with a(5) have "compute_diff t (titles ! i) < compute_diff t (titles ! i')" by simp
    moreover from a(4) a(1) have "compute_diff t (titles ! i') \<le> compute_diff t (titles ! i)"
      by simp
    ultimately show False by simp
  next
    case 2
    with a(6) have "compute_diff t (titles ! i') < compute_diff t (titles ! i)" by simp
    moreover from a(3) a(2) have "compute_diff t (titles ! i) \<le> compute_diff t (titles ! i')"
      by simp
    ultimately show False by simp
  qed
qed


lemma match_loop_all:
  assumes "titles = map title md" and "titles \<noteq> []"
  shows "\<exists>out ev. match_loop md titles (map Some entities) = (Inr (map Some out), ev)
      \<and> length out = length entities
      \<and> (\<forall>k<length entities. \<exists>i.
            lowest_minimiser (song_name (entities ! k)) titles i
            \<and> out ! k = (entities ! k)\<lparr>youtube_link :=
                  Some (''https://www.youtube.com/watch?v='' @ videoId (md ! i))\<rparr>
            \<and> (compute_diff (song_name (entities ! k)) (titles ! i) \<noteq> 0 \<longrightarrow>
                 PrintMismatch (song_name (entities ! k)) (titles ! i)
                   (compute_diff (song_name (entities ! k)) (titles ! i)) \<in> set ev)
            \<and> PrintDebug (song_name (entities ! k))
                 (compute_diff (song_name (entities ! k)) (titles ! i), i, titles ! i)
                 (''https://www.youtube.com/watch?v='' @ videoId (md ! i)) \<in> set ev)"
proof -
  define P where "P s s' ev \<longleftrightarrow> (\<exists>i.
            lowest_minimiser (song_name s) titles i
            \<and> s' = s\<lparr>youtube_link :=
                  Some (''https://www.youtube.com/watch?v='' @ videoId (md ! i))\<rparr>
            \<and> (compute_diff (song_name s) (titles ! i) \<noteq> 0 \<longrightarrow>
                 PrintMismatch (song_name s) (titles ! i)
                   (compute_diff (song_name s) (titles ! i)) \<in> set ev)
            \<and> PrintDebug (song_name s)
                 (compute_diff (song_name s) (titles ! i), i, titles ! i)
                 (''https://www.youtube.com/watch?v='' @ videoId (md ! i)) \<in> set ev)"
    for s s' :: SongObject and ev :: "event list"
  have mono: "P s s' (ev1 @ ev)" if "P s s' ev" for s s' ev ev1
    using that unfolding P_def by auto
  have "\<exists>out ev. match_loop md titles (map Some entities) = (Inr (map Some out), ev)
      \<and> length out = length entities
      \<and> (\<forall>k<length entities. P (entities ! k) (out ! k) ev)"
  proof (induction entities)
    case Nil
    show ?case by simp
  next
    case (Cons s rest)
    then obtain out ev where ih:
        "match_loop md titles (map Some rest) = (Inr (map Some out), ev)"
        "length out = length rest"
        "\<forall>k<length rest. P (rest ! k) (out ! k) ev"
      by blast
    from match_loop_step [OF assms, of s "map Some rest"] ih(1)
    obtain i where i: "i < length titles"
        "\<forall>j<length titles. compute_diff (song_name s) (titles ! i)
                              \<le> compute_diff (song_name s) (titles ! j)"
        "\<forall>j<i. compute_diff (song_name s) (titles ! i) < compute_diff (song_name s) (titles ! j)"
        "match_loop md titles (Some s # map Some rest) =
           (Inr (Some (s\<lparr>youtube_link :=
                              Some (''https://www.youtube.com/watch?v='' @ videoId (md ! i))\<rparr>)
                     # map Some out),
                (if compute_diff (song_name s) (titles ! i) \<noteq> 0
                 then [PrintMismatch (song_name s) (titles ! i)
                         (compute_diff (song_name s) (titles ! i))]
                 else [])
                @ [PrintDebug (song_name s)
                     (compute_diff (song_name s) (titles ! i), i, titles ! i)
                     (''https://www.youtube.com/watch?v='' @ videoId (md ! i))]
                @ ev)"
      by auto
    let ?s' = "s\<lparr>youtube_link := Some (''https://www.youtube.com/watch?v='' @ videoId (md ! i))\<rparr>"
    let ?ev1 = "(if compute_diff (song_name s) (titles ! i) \<noteq> 0
                 then [PrintMismatch (song_name s) (titles ! i)
                         (compute_diff (song_name s) (titles ! i))]
                 else [])
                @ [PrintDebug (song_name s)
                     (compute_diff (song_name s) (titles ! i), i, titles ! i)
                     (''https://www.youtube.com/watch?v='' @ videoId (md ! i))]"
    have m: "match_loop md titles (map Some (s # rest)) = (Inr (map Some (?s' # out)), ?ev1 @ ev)"
      using i(4) by simp
    have l: "length (?s' # out) = length (s # rest)"
      using ih(2) by simp
    have "lowest_minimiser (song_name s) titles i"
      using i(1,2,3) by (simp add: lowest_minimiser_iff)
    then have p0: "P s ?s' (?ev1 @ ev)"
      unfolding P_def by (intro exI [of _ i]) simp
    have pk: "P (rest ! k) (out ! k) (?ev1 @ ev)" if "k < length rest" for k
      using ih(3) that mono by blast
    have a: "\<forall>k<length (s # rest). P ((s # rest) ! k) ((?s' # out) ! k) (?ev1 @ ev)"
    proof (intro allI impI)
      fix k assume "k < length (s # rest)"
      then show "P ((s # rest) ! k) ((?s' # out) ! k) (?ev1 @ ev)"
        using p0 pk by (cases k) simp_all
    qed
    from m l a show ?case by blast
  qed
  then show ?thesis unfolding P_def .
qed


text \<open>
  C2.  For a non-empty list of candidate titles (the titles of the fetched
  entries) and a list of songs, the matching loop returns the songs in their
  positions, each with its audio link built from the \<open>videoId\<close> of the candidate whose
  title has the least distance to the name of the song, the first such candidate on
  a tie.  That candidate is unique, so the assignment is a function of the inputs.
  The mismatch line for the song and its candidate is printed exactly when the
  least distance is not 0, and the song is assigned all the same.
\<close>

theorem match_loop_assigns_best:
  assumes "titles = map title md" and "titles \<noteq> []"
  shows "\<exists>out ev. match_loop md titles (map Some entities) = (Inr (map Some out), ev)
      \<and> length out = length entities
      \<and> (\<forall>k<length entities. \<exists>i.
            lowest_minimiser (song_name (entities ! k)) titles i
            \<and> (\<forall>i'. lowest_minimiser (song_name (entities ! k)) titles i' \<longrightarrow> i' = i)
            \<and> out ! k = (entities ! k)\<lparr>youtube_link :=
                  Some (''https://www.youtube.com/watch?v='' @ videoId (md ! i))\<rparr>
            \<and> (PrintMismatch (song_name (entities ! k)) (titles ! i)
                   (compute_diff (song_name (entities ! k)) (titles ! i)) \<in> set ev
                 \<longleftrightarrow> compute_diff (song_name (entities ! k)) (titles ! i) \<noteq> 0))"
proof -
  from match_loop_all [OF assms, of entities]
  obtain out ev where m: "match_loop md titles (map Some entities) = (Inr (map Some out), ev)"
      "length out = length entities"
      "\<forall>k<length entities. \<exists>i.
            lowest_minimiser (song_name (entities ! k)) titles i
            \<and> out ! k = (entities ! k)\<lparr>youtube_link :=
                  Some (''https://www.youtube.com/watch?v='' @ videoId (md ! i))\<rparr>
            \<and> (compute_diff (song_name (entities ! k)) (titles ! i) \<noteq> 0 \<longrightarrow>
                 PrintMismatch (song_name (entities ! k)) (titles ! i)
                   (compute_diff (song_name (entities ! k)) (titles ! i)) \<in> set ev)
            \<and> PrintDebug (song_name (entities ! k))
                 (compute_diff (song_name (entities ! k)) (titles ! i), i, titles ! i)
                 (''https://www.youtube.com/watch?v='' @ videoId (md ! i)) \<in> set ev"
    by blast
  have "\<exists>i. lowest_minimiser (song_name (entities ! k)) titles i
            \<and> (\<forall>i'. lowest_minimiser (song_name (entities ! k)) titles i' \<longrightarrow> i' = i)
            \<and> out ! k = (entities ! k)\<lparr>youtube_link :=
                  Some (''https://www.youtube.com/watch?v='' @ videoId (md ! i))\<rparr>
            \<and> (PrintMismatch (song_name (entities ! k)) (titles ! i)
                   (compute_diff (song_name (entities ! k)) (titles ! i)) \<in> set ev
                 \<longleftrightarrow> compute_diff (song_name (entities ! k)) (titles ! i) \<noteq> 0)"
    if k: "k < length entities" for k
  proof -
    from m(3) k obtain i where i:
        "lowest_minimiser (song_name (entities ! k)) titles i"
        "out ! k = (entities ! k)\<lparr>youtube_link :=
                  Some (''https://www.youtube.com/watch?v='' @ videoId (md ! i))\<rparr>"
        "compute_diff (song_name (entities ! k)) (titles ! i) \<noteq> 0 \<longrightarrow>
                 PrintMismatch (song_name (entities ! k)) (titles ! i)
                   (compute_diff (song_name (entities ! k)) (titles ! i)) \<in> set ev"
      by blast
    have u: "\<forall>i'. lowest_minimiser (song_name (entities ! k)) titles i' \<longrightarrow> i' = i"
      using lowest_minimiser_unique [OF i(1)] by blast
    have w: "PrintMismatch (song_name (entities ! k)) (titles ! i)
                   (compute_diff (song_name (entities ! k)) (titles ! i)) \<in> set ev
                 \<longleftrightarrow> compute_diff (song_name (entities ! k)) (titles ! i) \<noteq> 0"
      using i(3) match_loop_mismatch_nonzero [OF m(1)] by blast
    from i(1) u i(2) w show ?thesis by blast
  qed
  with m(1,2) show ?thesis by blast
qed


lemma sample_distances:
  "compute_diff ''A b'' ''xyz!'' = 6" "compute_diff ''A b'' ''bA'' = 0"
  "compute_diff ''A b'' ''Ab'' = 0" "compute_diff ''xyz'' ''xyz!'' = 1"
  "compute_diff ''xyz'' ''bA'' = 5" "compute_diff ''xyz'' ''Ab'' = 5"
  by code_simp+

lemma sample_match_loop:
  "match_loop [\<lparr>title = ''xyz!'', videoId = ''v0''\<rparr>,
               \<lparr>title = ''bA'', videoId = ''v1''\<rparr>,
               \<lparr>title = ''Ab'', videoId = ''v2''\<rparr>] [''xyz!'', ''bA'', ''Ab'']
     [Some (sample_song ''A b''), Some (sample_song ''xyz'')]
   = (Inr [Some ((sample_song ''A b'')
                   \<lparr>youtube_link := Some ''https://www.youtube.com/watch?v=v1''\<rparr>),
           Some ((sample_song ''xyz'')
                   \<lparr>youtube_link := Some ''https://www.youtube.com/watch?v=v0''\<rparr>)],
      [PrintDebug ''A b'' (0, 1, ''bA'') ''https://www.youtube.com/watch?v=v1'',
       PrintMismatch ''xyz'' ''xyz!'' 1,
       PrintDebug ''xyz'' (1, 0, ''xyz!'') ''https://www.youtube.com/watch?v=v0''])"
  by (simp add: Let_def diff_scores_def enumerate_eq_zip song_name_def sample_song_def
      SongObject_init_def sample_distances upt_rec)

theorem match_loop_assigns_best_witness:
  "[''xyz!'', ''bA'', ''Ab'']
     = map title [\<lparr>title = ''xyz!'', videoId = ''v0''\<rparr>,
                  \<lparr>title = ''bA'', videoId = ''v1''\<rparr>,
                  \<lparr>title = ''Ab'', videoId = ''v2''\<rparr>]
   \<and> [''xyz!'', ''bA'', ''Ab''] \<noteq> []
   \<and> lowest_minimiser ''A b'' [''xyz!'', ''bA'', ''Ab''] 1
   \<and> \<not> lowest_minimiser ''A b'' [''xyz!'', ''bA'', ''Ab''] 2
   \<and> fst (match_loop [\<lparr>title = ''xyz!'', videoId = ''v0''\<rparr>,
                      \<lparr>title = ''bA'', videoId = ''v1''\<rparr>,
                      \<lparr>title = ''Ab'', videoId = ''v2''\<rparr>] [''xyz!'', ''bA'', ''Ab'']
            (map Some [sample_song ''A b'', sample_song ''xyz'']))
       = Inr [Some ((sample_song ''A b'')
                      \<lparr>youtube_link := Some ''https://www.youtube.com/watch?v=v1''\<rparr>),
              Some ((sample_song ''xyz'')
                      \<lparr>youtube_link := Some ''https://www.youtube.com/watch?v=v0''\<rparr>)]"
proof -
  let ?md = "[\<lparr>title = ''xyz!'', videoId = ''v0''\<rparr>,
              \<lparr>title = ''bA'', videoId = ''v1''\<rparr>,
              \<lparr>title = ''Ab'', videoId = ''v2''\<rparr>]"
  let ?titles = "[''xyz!'', ''bA'', ''Ab'']"
  let ?ents = "[sample_song ''A b'', sample_song ''xyz'']"
  have h1: "?titles = map title ?md"
    by simp
  have h2: "?titles \<noteq> []"
    by simp
  have n: "song_name (?ents ! 0) = ''A b''"
    by (simp add: song_name_def sample_song_def SongObject_init_def)
  have b: "lowest_minimiser ''A b'' ?titles 1"
    by (simp add: lowest_minimiser_def sample_distances)
  from match_loop_assigns_best [OF h1 h2, of ?ents]
  obtain out ev where c: "\<forall>k<length ?ents. \<exists>i.
            lowest_minimiser (song_name (?ents ! k)) ?titles i
            \<and> (\<forall>i'. lowest_minimiser (song_name (?ents ! k)) ?titles i' \<longrightarrow> i' = i)
            \<and> out ! k = (?ents ! k)\<lparr>youtube_link :=
                  Some (''https://www.youtube.com/watch?v='' @ videoId (?md ! i))\<rparr>
            \<and> (PrintMismatch (song_name (?ents ! k)) (?titles ! i)
                   (compute_diff (song_name (?ents ! k)) (?titles ! i)) \<in> set ev
                 \<longleftrightarrow> compute_diff (song_name (?ents ! k)) (?titles ! i) \<noteq> 0)"
    by (elim exE conjE)
  have l0: "(0::nat) < length ?ents"
    by simp
  have "\<exists>i. lowest_minimiser (song_name (?ents ! 0)) ?titles i
      \<and> (\<forall>i'. lowest_minimiser (song_name (?ents ! 0)) ?titles i' \<longrightarrow> i' = i)"
    using c [THEN spec, of 0, THEN mp, OF l0] by (elim exE conjE, intro exI conjI)
  then obtain i where i: "lowest_minimiser (song_name (?ents ! 0)) ?titles i"
      "\<forall>i'. lowest_minimiser (song_name (?ents ! 0)) ?titles i' \<longrightarrow> i' = i"
    by blast
  have "1 = i"
    using i(2) [unfolded n, THEN spec, of 1, THEN mp, OF b] .
  with i(2) have "\<forall>i'. lowest_minimiser ''A b'' ?titles i' \<longrightarrow> i' = 1"
    unfolding n by simp
  from this [THEN spec, of 2] have u: "\<not> lowest_minimiser ''A b'' ?titles 2"
    by simp
  have f: "fst (match_loop ?md ?titles (map Some ?ents))
       = Inr [Some ((sample_song ''A b'')
                      \<lparr>youtube_link := Some ''https://www.youtube.com/watch?v=v1''\<rparr>),
              Some ((sample_song ''xyz'')
                      \<lparr>youtube_link := Some ''https://www.youtube.com/watch?v=v0''\<rparr>)]"
    using sample_match_loop by simp
  show ?thesis
    by (intro conjI h1 h2 b u f)
qed


section \<open>Paired playlist requests: claim C7\<close>

lemma not_none_keep: "not_none (keep_not_none xs) = not_none xs"
  by (induction xs rule: not_none.induct) (simp_all add: keep_not_none_def)

lemma playlist_matches:
  assumes "from_album E s f False g t (Some True) = Inr song_list"
    and "get_metadata_for_playlist E y = Inr md"
    and "md \<noteq> []"
  shows "get_youtube_meta_playlist E y s f g t =
    (fst (match_loop md (map title md) song_list),
     [Print (''Gathering Spotify Metadata for: '' @ s),
      Call (FromAlbum s f False g t (Some True)),
      Call (GetMetadataForPlaylist y)]
     @ snd (match_loop md (map title md) song_list))"
  using assms
  by (simp add: get_youtube_meta_playlist_def Let_def split: prod.split)

lemma not_none_map_Some: "not_none (map Some xs) = xs"
  by (induction xs) simp_all

text \<open>
  C7, as the code has it.  For a paired-playlist request that passes the marker
  test, \<open>parse_request\<close> fetches the songs from the catalog with \<open>from_album\<close> (the
  album fetch, called with the catalog segment, \<open>use_youtube = False\<close> and
  \<open>skip_youtube = True\<close>), then fetches the entries of the audio source for the
  audio-source segment; when both return and there is at least one entry, the
  request returns the fetched songs, in their order, each with its audio link set
  from the candidate that the matcher chooses for it.  The playlist fetch
  \<open>from_playlist\<close> is never called.
\<close>

theorem paired_playlist_fetches_album:
  assumes "classify request = PairedPlaylistURLs"
    and "\<not> malformed (split_on (CHR ''|'') request)"
    and "from_album E (split_on (CHR ''|'') request ! 1) f False g t (Some True)
           = Inr (map Some entities)"
    and "get_metadata_for_playlist E (split_on (CHR ''|'') request ! 0) = Inr md"
    and "md \<noteq> []"
  shows "\<exists>out ev.
      parse_request E request f u g t =
        (Inr out,
         [Print ''Fetching YouTube Music playlist with spotify metadata'',
          Print (''Gathering Spotify Metadata for: '' @ split_on (CHR ''|'') request ! 1),
          Call (FromAlbum (split_on (CHR ''|'') request ! 1) f False g t (Some True)),
          Call (GetMetadataForPlaylist (split_on (CHR ''|'') request ! 0))] @ ev)
      \<and> length out = length entities
      \<and> (\<forall>k<length entities. \<exists>i.
            lowest_minimiser (song_name (entities ! k)) (map title md) i
            \<and> out ! k = (entities ! k)\<lparr>youtube_link :=
                  Some (''https://www.youtube.com/watch?v='' @ videoId (md ! i))\<rparr>)
      \<and> (\<forall>a b c d e. Call (FromPlaylist a b c d e)
            \<notin> set (snd (parse_request E request f u g t)))"
proof -
  let ?urls = "split_on (CHR ''|'') request"
  have t1: "map title md = map title md"
    by (rule refl)
  have t2: "map title md \<noteq> []"
    using assms(5) by simp
  from match_loop_all [OF t1 t2, of entities]
  obtain out ev where m:
      "match_loop md (map title md) (map Some entities) = (Inr (map Some out), ev)"
      "length out = length entities"
      "\<forall>k<length entities. \<exists>i.
            lowest_minimiser (song_name (entities ! k)) (map title md) i
            \<and> out ! k = (entities ! k)\<lparr>youtube_link :=
                  Some (''https://www.youtube.com/watch?v='' @ videoId (md ! i))\<rparr>"
    by blast
  have p: "get_youtube_meta_playlist E (?urls ! 0) (?urls ! 1) f g t =
      (Inr (map Some out),
       [Print (''Gathering Spotify Metadata for: '' @ ?urls ! 1),
        Call (FromAlbum (?urls ! 1) f False g t (Some True)),
        Call (GetMetadataForPlaylist (?urls ! 0))] @ ev)"
    using playlist_matches [OF assms(3,4,5)] m(1) by simp
  have r: "parse_request E request f u g t =
      (Inr out,
       [Print ''Fetching YouTube Music playlist with spotify metadata'',
        Print (''Gathering Spotify Metadata for: '' @ ?urls ! 1),
        Call (FromAlbum (?urls ! 1) f False g t (Some True)),
        Call (GetMetadataForPlaylist (?urls ! 0))] @ ev)"
    by (simp add: parse_request_PairedPlaylist [OF assms(1)] assms(2) p not_none_keep
        not_none_map_Some del: One_nat_def)
  have n: "Call (FromPlaylist a b c d e) \<notin> set ev" for a b c d e
    using match_loop_events [OF m(1), of "Call (FromPlaylist a b c d e)"] by auto
  have q: "\<forall>a b c d e. Call (FromPlaylist a b c d e)
            \<notin> set (snd (parse_request E request f u g t))"
    unfolding r using n by simp
  from r m(2,3) q show ?thesis by blast
qed

lemma sample_playlist_request:
  "classify ''music.youtube.com/playlist?list=9|open.spotify.com/playlist/2'' = PairedPlaylistURLs"
  "split_on (CHR ''|'') ''music.youtube.com/playlist?list=9|open.spotify.com/playlist/2''
     = [''music.youtube.com/playlist?list=9'', ''open.spotify.com/playlist/2'']"
  "\<not> malformed [''music.youtube.com/playlist?list=9'', ''open.spotify.com/playlist/2'']"
  by (simp_all add: classify_def paired_track_pattern_def paired_playlist_pattern_def
      malformed_def)

lemma sample_playlist_run:
  "parse_request env_ok ''music.youtube.com/playlist?list=9|open.spotify.com/playlist/2''
     None False False 1
   = (Inr [(sample_song ''A b'')\<lparr>youtube_link := Some ''https://www.youtube.com/watch?v=v1''\<rparr>,
           (sample_song ''xyz'')\<lparr>youtube_link := Some ''https://www.youtube.com/watch?v=v0''\<rparr>],
      [Print ''Fetching YouTube Music playlist with spotify metadata'',
       Print ''Gathering Spotify Metadata for: open.spotify.com/playlist/2'',
       Call (FromAlbum ''open.spotify.com/playlist/2'' None False False 1 (Some True)),
       Call (GetMetadataForPlaylist ''music.youtube.com/playlist?list=9''),
       PrintDebug ''A b'' (0, 1, ''bA'') ''https://www.youtube.com/watch?v=v1'',
       PrintMismatch ''xyz'' ''xyz!'' 1,
       PrintDebug ''xyz'' (1, 0, ''xyz!'') ''https://www.youtube.com/watch?v=v0''])"
proof -
  let ?md = "[\<lparr>title = ''xyz!'', videoId = ''v0''\<rparr>,
              \<lparr>title = ''bA'', videoId = ''v1''\<rparr>,
              \<lparr>title = ''Ab'', videoId = ''v2''\<rparr>]"
  have a: "from_album env_ok ''open.spotify.com/playlist/2'' None False False 1 (Some True)
       = Inr [Some (sample_song ''A b''), Some (sample_song ''xyz'')]"
    by (simp add: env_ok_def)
  have b: "get_metadata_for_playlist env_ok ''music.youtube.com/playlist?list=9'' = Inr ?md"
    by (simp add: env_ok_def)
  have c: "?md \<noteq> []"
    by simp
  have m: "map title ?md = [''xyz!'', ''bA'', ''Ab'']"
    by simp
  have p: "get_youtube_meta_playlist env_ok ''music.youtube.com/playlist?list=9''
      ''open.spotify.com/playlist/2'' None False 1
   = (Inr [Some ((sample_song ''A b'')
                   \<lparr>youtube_link := Some ''https://www.youtube.com/watch?v=v1''\<rparr>),
           Some ((sample_song ''xyz'')
                   \<lparr>youtube_link := Some ''https://www.youtube.com/watch?v=v0''\<rparr>)],
      [Print ''Gathering Spotify Metadata for: open.spotify.com/playlist/2'',
       Call (FromAlbum ''open.spotify.com/playlist/2'' None False False 1 (Some True)),
       Call (GetMetadataForPlaylist ''music.youtube.com/playlist?list=9''),
       PrintDebug ''A b'' (0, 1, ''bA'') ''https://www.youtube.com/watch?v=v1'',
       PrintMismatch ''xyz'' ''xyz!'' 1,
       PrintDebug ''xyz'' (1, 0, ''xyz!'') ''https://www.youtube.com/watch?v=v0''])"
    using playlist_matches [OF a b c] unfolding m sample_match_loop by simp
  show ?thesis
    unfolding parse_request_PairedPlaylist [OF sample_playlist_request(1)]
      sample_playlist_request(2)
    using sample_playlist_request(3)
    by (simp add: p keep_not_none_def)
qed

theorem paired_playlist_fetches_album_witness:
  "classify ''music.youtube.com/playlist?list=9|open.spotify.com/playlist/2'' = PairedPlaylistURLs
   \<and> \<not> malformed (split_on (CHR ''|'')
                      ''music.youtube.com/playlist?list=9|open.spotify.com/playlist/2'')
   \<and> from_album env_ok ''open.spotify.com/playlist/2'' None False False 1 (Some True)
       = Inr (map Some [sample_song ''A b'', sample_song ''xyz''])
   \<and> get_metadata_for_playlist env_ok ''music.youtube.com/playlist?list=9''
       = Inr [\<lparr>title = ''xyz!'', videoId = ''v0''\<rparr>,
              \<lparr>title = ''bA'', videoId = ''v1''\<rparr>,
              \<lparr>title = ''Ab'', videoId = ''v2''\<rparr>]
   \<and> (\<exists>out. fst (parse_request env_ok
                    ''music.youtube.com/playlist?list=9|open.spotify.com/playlist/2''
                    None False False 1) = Inr out
             \<and> length out = length [sample_song ''A b'', sample_song ''xyz''])
   \<and> fst (parse_request env_ok
            ''music.youtube.com/playlist?list=9|open.spotify.com/playlist/2'' None False False 1)
       = Inr [(sample_song ''A b'')\<lparr>youtube_link := Some ''https://www.youtube.com/watch?v=v1''\<rparr>,
              (sample_song ''xyz'')\<lparr>youtube_link := Some ''https://www.youtube.com/watch?v=v0''\<rparr>]
   \<and> Call (FromPlaylist ''open.spotify.com/playlist/2'' None False False 1)
       \<notin> set (snd (parse_request env_ok
            ''music.youtube.com/playlist?list=9|open.spotify.com/playlist/2'' None False False 1))"
proof -
  let ?r = "''music.youtube.com/playlist?list=9|open.spotify.com/playlist/2''"
  let ?md = "[\<lparr>title = ''xyz!'', videoId = ''v0''\<rparr>,
              \<lparr>title = ''bA'', videoId = ''v1''\<rparr>,
              \<lparr>title = ''Ab'', videoId = ''v2''\<rparr>]"
  let ?ents = "[sample_song ''A b'', sample_song ''xyz'']"
  note u = sample_playlist_request(2)
  have h1: "classify ?r = PairedPlaylistURLs"
    by (rule sample_playlist_request(1))
  have h2: "\<not> malformed (split_on (CHR ''|'') ?r)"
    unfolding u by (rule sample_playlist_request(3))
  have a: "from_album env_ok ''open.spotify.com/playlist/2'' None False False 1 (Some True)
       = Inr (map Some ?ents)"
    by (simp add: env_ok_def)
  have b: "get_metadata_for_playlist env_ok ''music.youtube.com/playlist?list=9'' = Inr ?md"
    by (simp add: env_ok_def)
  have h3: "from_album env_ok (split_on (CHR ''|'') ?r ! 1) None False False 1 (Some True)
       = Inr (map Some ?ents)"
    unfolding u using a by simp
  have h4: "get_metadata_for_playlist env_ok (split_on (CHR ''|'') ?r ! 0) = Inr ?md"
    unfolding u using b by simp
  have h5: "?md \<noteq> []"
    by simp
  from paired_playlist_fetches_album [OF h1 h2 h3 h4 h5, of False]
  obtain out ev where c:
      "parse_request env_ok ?r None False False 1 =
        (Inr out,
         [Print ''Fetching YouTube Music playlist with spotify metadata'',
          Print (''Gathering Spotify Metadata for: '' @ split_on (CHR ''|'') ?r ! 1),
          Call (FromAlbum (split_on (CHR ''|'') ?r ! 1) None False False 1 (Some True)),
          Call (GetMetadataForPlaylist (split_on (CHR ''|'') ?r ! 0))] @ ev)"
      "length out = length ?ents"
      "\<forall>a b c d e. Call (FromPlaylist a b c d e)
            \<notin> set (snd (parse_request env_ok ?r None False False 1))"
    by (elim exE conjE)
  have "fst (parse_request env_ok ?r None False False 1) = Inr out"
    unfolding c(1) by simp
  with c(2) have x: "\<exists>out. fst (parse_request env_ok ?r None False False 1) = Inr out
             \<and> length out = length ?ents"
    by (intro exI conjI)
  have f: "fst (parse_request env_ok ?r None False False 1)
       = Inr [(sample_song ''A b'')\<lparr>youtube_link := Some ''https://www.youtube.com/watch?v=v1''\<rparr>,
              (sample_song ''xyz'')\<lparr>youtube_link := Some ''https://www.youtube.com/watch?v=v0''\<rparr>]"
    unfolding sample_playlist_run by simp
  have n: "Call (FromPlaylist ''open.spotify.com/playlist/2'' None False False 1)
       \<notin> set (snd (parse_request env_ok ?r None False False 1))"
    using c(3) by (elim allE)
  show ?thesis
    by (intro conjI h1 h2 a b x f n)
qed

text \<open>
  C7 as stated fails: on a paired-playlist request whose catalog segment is a
  playlist address, the run calls the album fetch with that address and never the
  playlist fetch, and its songs are those of the album fetch, not the song that the
  playlist fetch returns for the address.
\<close>

theorem paired_playlist_pathway_counterexample:
  "classify ''music.youtube.com/playlist?list=9|open.spotify.com/playlist/2'' = PairedPlaylistURLs
   \<and> \<not> malformed (split_on (CHR ''|'')
                      ''music.youtube.com/playlist?list=9|open.spotify.com/playlist/2'')
   \<and> snd (parse_request env_ok
            ''music.youtube.com/playlist?list=9|open.spotify.com/playlist/2'' None False False 1)
       = [Print ''Fetching YouTube Music playlist with spotify metadata'',
          Print ''Gathering Spotify Metadata for: open.spotify.com/playlist/2'',
          Call (FromAlbum ''open.spotify.com/playlist/2'' None False False 1 (Some True)),
          Call (GetMetadataForPlaylist ''music.youtube.com/playlist?list=9''),
          PrintDebug ''A b'' (0, 1, ''bA'') ''https://www.youtube.com/watch?v=v1'',
          PrintMismatch ''xyz'' ''xyz!'' 1,
          PrintDebug ''xyz'' (1, 0, ''xyz!'') ''https://www.youtube.com/watch?v=v0'']
   \<and> Call (FromPlaylist ''open.spotify.com/playlist/2'' None False False 1)
       \<notin> set (snd (parse_request env_ok
            ''music.youtube.com/playlist?list=9|open.spotify.com/playlist/2'' None False False 1))
   \<and> from_playlist env_ok ''open.spotify.com/playlist/2'' None False False 1
       = Inr [Some (sample_song ''P'')]
   \<and> fst (parse_request env_ok
            ''music.youtube.com/playlist?list=9|open.spotify.com/playlist/2'' None False False 1)
       = Inr [(sample_song ''A b'')\<lparr>youtube_link := Some ''https://www.youtube.com/watch?v=v1''\<rparr>,
              (sample_song ''xyz'')\<lparr>youtube_link := Some ''https://www.youtube.com/watch?v=v0''\<rparr>]"
proof -
  let ?r = "''music.youtube.com/playlist?list=9|open.spotify.com/playlist/2''"
  have h2: "\<not> malformed (split_on (CHR ''|'') ?r)"
    unfolding sample_playlist_request(2) by (rule sample_playlist_request(3))
  have t: "snd (parse_request env_ok ?r None False False 1)
       = [Print ''Fetching YouTube Music playlist with spotify metadata'',
          Print ''Gathering Spotify Metadata for: open.spotify.com/playlist/2'',
          Call (FromAlbum ''open.spotify.com/playlist/2'' None False False 1 (Some True)),
          Call (GetMetadataForPlaylist ''music.youtube.com/playlist?list=9''),
          PrintDebug ''A b'' (0, 1, ''bA'') ''https://www.youtube.com/watch?v=v1'',
          PrintMismatch ''xyz'' ''xyz!'' 1,
          PrintDebug ''xyz'' (1, 0, ''xyz!'') ''https://www.youtube.com/watch?v=v0'']"
    unfolding sample_playlist_run by simp
  have n: "Call (FromPlaylist ''open.spotify.com/playlist/2'' None False False 1)
       \<notin> set (snd (parse_request env_ok ?r None False False 1))"
    unfolding t by simp
  have p: "from_playlist env_ok ''open.spotify.com/playlist/2'' None False False 1
       = Inr [Some (sample_song ''P'')]"
    by (simp add: env_ok_def)
  have f: "fst (parse_request env_ok ?r None False False 1)
       = Inr [(sample_song ''A b'')\<lparr>youtube_link := Some ''https://www.youtube.com/watch?v=v1''\<rparr>,
              (sample_song ''xyz'')\<lparr>youtube_link := Some ''https://www.youtube.com/watch?v=v0''\<rparr>]"
    unfolding sample_playlist_run by simp
  show ?thesis
    by (intro conjI sample_playlist_request(1) h2 t n p f)
qed


section \<open>Collaborator errors: claim C1\<close>







end
